theory Spec2Isabelle
  imports Main
begin

text \<open>
  A model of the component runtime of the repository: the custom element
  \<open>UpgradedElement\<close> with its lifecycle callbacks and render passes, and the virtual DOM of
  the repository's own differ (\<open>createDOMMap\<close>, \<open>createNode\<close>, \<open>diffAttributes\<close>, \<open>diffDOM\<close>,
  \<open>renderMapToDOM\<close>). Definitions come first, in the order of the source; the theorems
  follow, grouped by component.
\<close>


section \<open>Results of fallible code\<close>

text \<open>
  A JavaScript exception is a value: \<open>Inl e\<close> is a raised exception, \<open>Inr x\<close> a normal
  return. \<open>bindE\<close> sequences two statements, the second one skipped when the first raises.
  \<open>LibraryError\<close> stands for whatever the external virtual DOM package raises.
\<close>

datatype error =
    RenderMethodMissing
  | NonStringTemplate
  | LibraryError
  | TypeError
  | ReferenceError
  | HierarchyRequestError
  | NotFoundError

definition bindE :: "error + 'a \<Rightarrow> ('a \<Rightarrow> error + 'b) \<Rightarrow> error + 'b" where
  "bindE m f = (case m of Inl e \<Rightarrow> Inl e | Inr x \<Rightarrow> f x)"

section \<open>The component: UpgradedElement\<close>

text \<open>
  The values a user's \<open>render\<close> method can return: a string, or anything else.
\<close>

datatype js_value = JSString string | JSUndefined | JSObject

text \<open>
  Modelled from the spec: \<open>isString\<close> of \<open>./utilities\<close> (the file is not among the
  sources); "violating the must-return-a-string contract is a fatal error".
\<close>

fun isString :: "js_value \<Rightarrow> bool" where
  "isString (JSString s) = True"
| "isString v = False"

text \<open>The lifecycle method names of \<open>external.js\<close>.\<close>

datatype hook =
    elementDidConnect
  | elementDidMount
  | elementDidUpdate
  | elementPropertyChanged
  | elementAttributeChanged
  | elementWillUnmount

text \<open>
  What an instance does to the outside, in order: a lifecycle method of the extender that
  is called, a style tag appended to the shadow root, a render function handed to the
  scheduler, and the calls of the virtual DOM library (\<open>render\<close> with the new tree,
  \<open>update\<close> with the next tree and the retained one, \<open>None\<close> when that is not a tree).
\<close>

datatype 'v effect =
    HookCall hook
  | StyleTagAppended string
  | RenderScheduled
  | LibRender 'v
  | LibUpdate 'v "'v option"

text \<open>
  The retained virtual DOM of an instance: \<open>[]\<close> after construction, the created tree
  after the first render, \<open>null\<close> after \<open>disconnectedCallback\<close>.
\<close>

datatype 'v retained = EmptyArray | Null | Tree 'v

text \<open>
  The instance. \<open>defined\<close> holds the lifecycle methods the extender defines
  (\<open>isFunction(this[name])\<close>); \<open>renderMethod\<close> is \<open>None\<close> when \<open>this.render\<close> is not a
  function and \<open>Some v\<close> when it is one that returns \<open>v\<close> in the instance's current state;
  \<open>staticStyles\<close> is \<open>constructor.styles\<close>. The lifecycle methods of the extender are opaque: the
  model records that they are called.
\<close>

record 'v element =
  defined :: "hook set"
  renderMethod :: "js_value option"
  staticStyles :: js_value
  isFirstRender :: bool
  isDisconnected :: bool
  vDOM :: "'v retained"
  trace :: "'v effect list"

text \<open>
  The virtual DOM library \<open>omdomdom\<close> is an external package, so its three functions are
  parameters of the model, and each of them may raise: the result \<open>None\<close> is a call that
  raises. \<open>create\<close> parses a template string, \<open>render\<close> puts a tree under the shadow
  root, \<open>update\<close> patches the retained tree in place (the model returns the patched tree).
\<close>

record 'v library =
  create :: "string \<Rightarrow> 'v option"
  render :: "'v \<Rightarrow> unit option"
  update :: "'v \<Rightarrow> 'v retained \<Rightarrow> 'v retained option"

definition emit :: "'v effect \<Rightarrow> 'v element \<Rightarrow> 'v element" where
  "emit e this = this\<lparr>trace := trace this @ [e]\<rparr>"

definition runLifecycle :: "hook \<Rightarrow> 'v element \<Rightarrow> 'v element" where
  "runLifecycle name this = (if name \<in> defined this then emit (HookCall name) this else this)"

text \<open>The part of \<open>initialize\<close> that sets the internal properties.\<close>

definition initialize :: "hook set \<Rightarrow> js_value option \<Rightarrow> js_value \<Rightarrow> 'v element" where
  "initialize hs r s =
     \<lparr>defined = hs, renderMethod = r, staticStyles = s, isFirstRender = True,
      isDisconnected = False, vDOM = EmptyArray, trace = []\<rparr>"

definition getDOMString :: "'v element \<Rightarrow> error + string" where
  "getDOMString this =
     (case renderMethod this of
        None \<Rightarrow> Inl RenderMethodMissing
      | Some domString \<Rightarrow>
          (case domString of
             JSString s \<Rightarrow> Inr s
           | _ \<Rightarrow> Inl NonStringTemplate))"

definition getVDOM :: "'v library \<Rightarrow> 'v element \<Rightarrow> error + 'v" where
  "getVDOM lib this =
     bindE (getDOMString this)
       (\<lambda>s. case create lib s of None \<Rightarrow> Inl LibraryError | Some v \<Rightarrow> Inr v)"

definition renderStyles :: "'v element \<Rightarrow> 'v element" where
  "renderStyles this =
     (case staticStyles this of
        JSString s \<Rightarrow> emit (StyleTagAppended s) this
      | _ \<Rightarrow> this)"

text \<open>
  Modelled from the spec: the scheduler of \<open>./scheduler\<close> (not among the sources), which
  "registers renderFn to run at most once per animation tick". The model records the
  request; the tick that runs \<open>renderDOM\<close> is an event of its own.
\<close>

definition requestRender :: "'v element \<Rightarrow> 'v element" where
  "requestRender this = emit RenderScheduled this"

text \<open>
  A render pass returns the exception it raised, if any, with the instance as the pass left
  it: the assignments made before the exception stay. In \<open>getInitialRenderState\<close> the tree
  is assigned to \<open>vDOM\<close> before \<open>render\<close> is called, and the hook and the assignment of
  \<open>isFirstRender\<close> come after it; in \<open>getNextRenderState\<close> the hook comes after \<open>update\<close>.
\<close>

definition getInitialRenderState :: "'v library \<Rightarrow> 'v element \<Rightarrow> error option \<times> 'v element" where
  "getInitialRenderState lib this =
     (case getVDOM lib this of
        Inl e \<Rightarrow> (Some e, this)
      | Inr v \<Rightarrow>
          (let this1 = emit (LibRender v) (this\<lparr>vDOM := Tree v\<rparr>)
           in case render lib v of
                None \<Rightarrow> (Some LibraryError, this1)
              | Some u \<Rightarrow> (None, (runLifecycle elementDidMount this1)\<lparr>isFirstRender := False\<rparr>)))"

definition getNextRenderState :: "'v library \<Rightarrow> 'v element \<Rightarrow> error option \<times> 'v element" where
  "getNextRenderState lib this =
     (case getVDOM lib this of
        Inl e \<Rightarrow> (Some e, this)
      | Inr nextVDOM \<Rightarrow>
          (let this1 = emit (LibUpdate nextVDOM (case vDOM this of Tree v \<Rightarrow> Some v | _ \<Rightarrow> None)) this
           in case update lib nextVDOM (vDOM this) of
                None \<Rightarrow> (Some LibraryError, this1)
              | Some patched \<Rightarrow> (None, runLifecycle elementDidUpdate (this1\<lparr>vDOM := patched\<rparr>))))"

definition renderDOM :: "'v library \<Rightarrow> 'v element \<Rightarrow> error option \<times> 'v element" where
  "renderDOM lib this =
     (if isFirstRender this then getInitialRenderState lib this
      else getNextRenderState lib this)"

definition connectedCallback :: "bool \<Rightarrow> 'v element \<Rightarrow> 'v element" where
  "connectedCallback isConnected this =
     (if isConnected \<and> \<not> isDisconnected this
      then requestRender (renderStyles (runLifecycle elementDidConnect this))
      else this)"

definition disconnectedCallback :: "'v element \<Rightarrow> 'v element" where
  "disconnectedCallback this =
     (runLifecycle elementWillUnmount this)\<lparr>vDOM := Null, isDisconnected := True\<rparr>"

definition adoptedCallback :: "'v element \<Rightarrow> 'v element" where
  "adoptedCallback this = this\<lparr>isDisconnected := False\<rparr>"

definition attributeChangedCallback ::
  "string \<Rightarrow> string option \<Rightarrow> string option \<Rightarrow> 'v element \<Rightarrow> 'v element" where
  "attributeChangedCallback name oldValue newValue this =
     (if oldValue \<noteq> newValue then runLifecycle elementAttributeChanged this else this)"

text \<open>
  The notifications an instance receives from its host, and the tick of the scheduler
  that runs \<open>renderDOM\<close>. \<open>StateChange\<close> stands for user code that changes what \<open>render\<close>
  returns next. An exception of \<open>renderDOM\<close> goes to the host, and the instance goes on as
  the pass left it.
\<close>

datatype event =
    Attach bool
  | Detach
  | Adopt
  | AttributeChanged string "string option" "string option"
  | StateChange "js_value option"
  | Tick

fun step :: "'v library \<Rightarrow> event \<Rightarrow> 'v element \<Rightarrow> 'v element" where
  "step lib (Attach isConnected) this = connectedCallback isConnected this"
| "step lib Detach this = disconnectedCallback this"
| "step lib Adopt this = adoptedCallback this"
| "step lib (AttributeChanged n ov nv) this = attributeChangedCallback n ov nv this"
| "step lib (StateChange r) this = this\<lparr>renderMethod := r\<rparr>"
| "step lib Tick this = snd (renderDOM lib this)"

fun run :: "'v library \<Rightarrow> event list \<Rightarrow> 'v element \<Rightarrow> 'v element" where
  "run lib [] this = this"
| "run lib (e # es) this = run lib es (step lib e this)"

section \<open>The template parser: createDOMMap\<close>

text \<open>
  A DOM node is an object with an identity: a \<open>ref\<close>. \<open>createDOMMap\<close> only reads the tree
  that \<open>DOMParser\<close> built, so its argument is that tree as a value: elements with their tag
  name, attributes and child nodes, text nodes and comments with their data. The parser
  itself belongs to the host.
\<close>

type_synonym ref = nat

datatype attribute = Attribute (name: string) (val: string)

datatype parsed =
    PElement ref string "attribute list" "parsed list"
  | PText ref string
  | PComment ref string

text \<open>
  The properties of a DOM node that \<open>createDOMMap\<close> reads. A body holds elements
  (\<open>nodeType\<close> 1), text nodes (3) and comments (8); \<open>textContent\<close> of an element is the
  text of its descendants, comments left out.
\<close>


fun nodeType :: "parsed \<Rightarrow> nat" where
  "nodeType (PElement r t as cs) = 1"
| "nodeType (PText r d) = 3"
| "nodeType (PComment r d) = 8"

fun nodeRef :: "parsed \<Rightarrow> ref" where
  "nodeRef (PElement r t as cs) = r"
| "nodeRef (PText r d) = r"
| "nodeRef (PComment r d) = r"

fun tagName :: "parsed \<Rightarrow> string" where
  "tagName (PElement r t as cs) = t"
| "tagName n = []"

fun nodeAttributes :: "parsed \<Rightarrow> attribute list" where
  "nodeAttributes (PElement r t as cs) = as"
| "nodeAttributes n = []"

fun childNodesOf :: "parsed \<Rightarrow> parsed list" where
  "childNodesOf (PElement r t as cs) = cs"
| "childNodesOf n = []"

fun textContent :: "parsed \<Rightarrow> string" where
  "textContent (PElement r t as cs) =
     concat (map textContent (filter (\<lambda>c. nodeType c \<noteq> 8) cs))"
| "textContent (PText r d) = d"
| "textContent (PComment r d) = d"

definition toLowerCase :: "string \<Rightarrow> string" where
  "toLowerCase s =
     map (\<lambda>c. case map_of (zip ''ABCDEFGHIJKLMNOPQRSTUVWXYZ'' ''abcdefghijklmnopqrstuvwxyz'') c of
                None \<Rightarrow> c
              | Some l \<Rightarrow> l) s"

definition getAttributes :: "attribute list \<Rightarrow> attribute list" where
  "getAttributes as = map (\<lambda>a. Attribute (name a) (val a)) as"

text \<open>
  The object \<open>createDOMMap\<close> builds for a node: \<open>{node, content, attributes, type, isSVG,
  children}\<close>; \<open>content\<close> is \<open>None\<close> for \<open>null\<close>.
\<close>

datatype vnode =
  VNode (node: ref) (content: "string option") (attributes: "attribute list")
        (type: string) (isSVG: bool) (children: "vnode list")

lemma childNodesOf_size: "n \<in> set (childNodesOf e) \<Longrightarrow> size n < size e"
  by (cases e) (auto simp: less_Suc_eq_le size_list_estimation')

function createDOMMap :: "parsed \<Rightarrow> bool \<Rightarrow> vnode list" where
  "createDOMMap element svg =
     map (\<lambda>n.
        let ty = (if nodeType n = 3 then ''text''
                  else if nodeType n = 8 then ''comment''
                  else toLowerCase (tagName n));
            as = (if nodeType n = 1 then getAttributes (nodeAttributes n) else []);
            c = (if length (childNodesOf n) > 0 then None else Some (textContent n));
            svg' = (svg \<or> ty = ''svg'')
        in VNode (nodeRef n) c as ty svg' (createDOMMap n svg'))
       (childNodesOf element)"
  by pat_completeness auto
termination
  by (relation "measure (\<lambda>(e, s). size e)") (auto simp: childNodesOf_size)

declare createDOMMap.simps [simp del]

section \<open>The live tree\<close>

text \<open>
  The differ mutates DOM nodes through references, so the live tree is a store: every
  \<open>ref\<close> holds a node with its kind, attributes, inline style declaration, character data,
  child list and parent. \<open>ops\<close> is the sequence of DOM calls made so far, one entry per
  call of the source. The host's checks that the model keeps are the ones the differ can
  meet: a method that a kind of node does not have, or a property that it has no setter
  for (\<open>TypeError\<close>), a parent that cannot have children (\<open>HierarchyRequestError\<close>), a
  child that is not the parent's (\<open>NotFoundError\<close>). Names are not validated,
  \<open>className\<close> is the \<open>class\<close> attribute, and the inline style is kept apart from the
  attribute list.
\<close>

datatype node_kind = ElementKind string bool | TextKind | CommentKind | FragmentKind

record dom_node =
  kind :: node_kind
  attrs :: "attribute list"
  style :: "attribute list"
  data :: string
  childNodes :: "ref list"
  parentNode :: "ref option"

datatype dom_op =
    CreateElement ref string
  | CreateElementNS ref string
  | CreateTextNode ref string
  | CreateComment ref string
  | CreateDocumentFragment ref
  | SetAttribute ref string string
  | RemoveAttribute ref string
  | SetClassName ref string
  | SetStyle ref string string
  | SetTextContent ref string
  | ClearInnerHTML ref
  | AppendChild ref ref
  | RemoveChild ref ref
  | ReplaceChild ref ref ref

record dom =
  heap :: "ref \<Rightarrow> dom_node"
  next_ref :: ref
  ops :: "dom_op list"

definition upd :: "ref \<Rightarrow> (dom_node \<Rightarrow> dom_node) \<Rightarrow> dom \<Rightarrow> dom" where
  "upd r f st = st\<lparr>heap := (heap st)(r := f (heap st r))\<rparr>"

definition logOp :: "dom_op \<Rightarrow> dom \<Rightarrow> dom" where
  "logOp x st = st\<lparr>ops := ops st @ [x]\<rparr>"

definition newNode :: "node_kind \<Rightarrow> string \<Rightarrow> dom \<Rightarrow> ref \<times> dom" where
  "newNode k d st =
     (next_ref st,
      st\<lparr>heap := (heap st)(next_ref st :=
             \<lparr>kind = k, attrs = [], style = [], data = d, childNodes = [], parentNode = None\<rparr>),
         next_ref := Suc (next_ref st)\<rparr>)"

definition createElement :: "string \<Rightarrow> dom \<Rightarrow> ref \<times> dom" where
  "createElement tag st =
     (case newNode (ElementKind tag False) [] st of (r, st') \<Rightarrow> (r, logOp (CreateElement r tag) st'))"

definition createElementNS :: "string \<Rightarrow> dom \<Rightarrow> ref \<times> dom" where
  "createElementNS tag st =
     (case newNode (ElementKind tag True) [] st of (r, st') \<Rightarrow> (r, logOp (CreateElementNS r tag) st'))"

text \<open>
  \<open>createTextNode\<close> and \<open>createComment\<close> turn their argument into a string: \<open>null\<close>
  becomes "null".
\<close>


definition toDOMString :: "string option \<Rightarrow> string" where
  "toDOMString v = (case v of None \<Rightarrow> ''null'' | Some s \<Rightarrow> s)"

definition createTextNode :: "string option \<Rightarrow> dom \<Rightarrow> ref \<times> dom" where
  "createTextNode v st =
     (case newNode TextKind (toDOMString v) st of
        (r, st') \<Rightarrow> (r, logOp (CreateTextNode r (toDOMString v)) st'))"

definition createComment :: "string option \<Rightarrow> dom \<Rightarrow> ref \<times> dom" where
  "createComment v st =
     (case newNode CommentKind (toDOMString v) st of
        (r, st') \<Rightarrow> (r, logOp (CreateComment r (toDOMString v)) st'))"

definition createDocumentFragment :: "dom \<Rightarrow> ref \<times> dom" where
  "createDocumentFragment st =
     (case newNode FragmentKind [] st of (r, st') \<Rightarrow> (r, logOp (CreateDocumentFragment r) st'))"

fun isElement :: "node_kind \<Rightarrow> bool" where
  "isElement (ElementKind t s) = True"
| "isElement k = False"

fun canHaveChildren :: "node_kind \<Rightarrow> bool" where
  "canHaveChildren (ElementKind t s) = True"
| "canHaveChildren FragmentKind = True"
| "canHaveChildren k = False"

text \<open>
  \<open>setAttribute\<close> replaces the value of an attribute in place or adds the attribute at the
  end. On a node that is not an element, \<open>setAttribute\<close>, \<open>removeAttribute\<close> and \<open>style\<close> do
  not exist and the call raises, while an assignment to \<open>className\<close> or \<open>innerHTML\<close> only makes
  a property of the object. On an element of the SVG namespace \<open>className\<close> has a getter
  only (its value is an \<open>SVGAnimatedString\<close>), and the assignment raises \<open>TypeError\<close> in
  the strict mode of a module. Assigning the empty string to a style property removes it.
\<close>


fun put :: "string \<Rightarrow> string \<Rightarrow> attribute list \<Rightarrow> attribute list" where
  "put n v [] = [Attribute n v]"
| "put n v (a # as) = (if name a = n then Attribute n v # as else a # put n v as)"

definition setAttribute :: "ref \<Rightarrow> string \<Rightarrow> string \<Rightarrow> dom \<Rightarrow> error + dom" where
  "setAttribute r n v st =
     (if isElement (kind (heap st r))
      then Inr (logOp (SetAttribute r n v) (upd r (\<lambda>nd. nd\<lparr>attrs := put n v (attrs nd)\<rparr>) st))
      else Inl TypeError)"

definition removeAttribute :: "ref \<Rightarrow> string \<Rightarrow> dom \<Rightarrow> error + dom" where
  "removeAttribute r n st =
     (if isElement (kind (heap st r))
      then Inr (logOp (RemoveAttribute r n)
                 (upd r (\<lambda>nd. nd\<lparr>attrs := filter (\<lambda>a. name a \<noteq> n) (attrs nd)\<rparr>) st))
      else Inl TypeError)"

definition setClassName :: "ref \<Rightarrow> string \<Rightarrow> dom \<Rightarrow> error + dom" where
  "setClassName r v st =
     (case kind (heap st r) of
        ElementKind t svg \<Rightarrow>
          if svg then Inl TypeError
          else Inr (logOp (SetClassName r v)
                     (upd r (\<lambda>nd. nd\<lparr>attrs := put ''class'' v (attrs nd)\<rparr>) st))
      | _ \<Rightarrow> Inr st)"

definition setStyleProperty :: "ref \<Rightarrow> string \<Rightarrow> string \<Rightarrow> dom \<Rightarrow> error + dom" where
  "setStyleProperty r n v st =
     (if isElement (kind (heap st r))
      then Inr (logOp (SetStyle r n v)
                 (upd r (\<lambda>nd. nd\<lparr>style := (if v = [] then filter (\<lambda>a. name a \<noteq> n) (style nd)
                                            else put n v (style nd))\<rparr>) st))
      else Inl TypeError)"

definition styleNames :: "ref \<Rightarrow> dom \<Rightarrow> error + string list" where
  "styleNames r st =
     (if isElement (kind (heap st r)) then Inr (map name (style (heap st r))) else Inl TypeError)"

definition styleValue :: "ref \<Rightarrow> string \<Rightarrow> dom \<Rightarrow> string" where
  "styleValue r n st = (case find (\<lambda>a. name a = n) (style (heap st r)) of None \<Rightarrow> [] | Some a \<Rightarrow> val a)"

text \<open>
  The tree operations of the host. A node that is inserted leaves its old parent first; a
  document fragment that is inserted gives its children and stays empty. The \<open>textContent\<close>
  setter (\<open>null\<close> counts as the empty string) replaces the children of an element or fragment
  by one new text node, or by nothing for the empty string, and sets the data of a text node
  or comment. \<open>innerHTML = ""\<close> removes the children of an element.
\<close>


definition detach :: "ref \<Rightarrow> dom \<Rightarrow> dom" where
  "detach c st =
     (case parentNode (heap st c) of
        None \<Rightarrow> st
      | Some p \<Rightarrow>
          upd c (\<lambda>nd. nd\<lparr>parentNode := None\<rparr>)
            (upd p (\<lambda>nd. nd\<lparr>childNodes := remove1 c (childNodes nd)\<rparr>) st))"

definition adopt :: "ref \<Rightarrow> ref list \<Rightarrow> dom \<Rightarrow> dom" where
  "adopt p cs st = fold (\<lambda>c. upd c (\<lambda>nd. nd\<lparr>parentNode := Some p\<rparr>)) cs st"

definition orphan :: "ref list \<Rightarrow> dom \<Rightarrow> dom" where
  "orphan cs st = fold (\<lambda>c. upd c (\<lambda>nd. nd\<lparr>parentNode := None\<rparr>)) cs st"

definition appendChild :: "ref \<Rightarrow> ref \<Rightarrow> dom \<Rightarrow> error + dom" where
  "appendChild parent child st =
     (if \<not> canHaveChildren (kind (heap st parent)) \<or> child = parent then Inl HierarchyRequestError
      else if kind (heap st child) = FragmentKind then
        (let cs = childNodes (heap st child)
         in Inr (logOp (AppendChild parent child)
                  (adopt parent cs
                    (upd parent (\<lambda>nd. nd\<lparr>childNodes := childNodes nd @ cs\<rparr>)
                      (upd child (\<lambda>nd. nd\<lparr>childNodes := []\<rparr>) st)))))
      else
        Inr (logOp (AppendChild parent child)
              (upd child (\<lambda>nd. nd\<lparr>parentNode := Some parent\<rparr>)
                (upd parent (\<lambda>nd. nd\<lparr>childNodes := childNodes nd @ [child]\<rparr>)
                  (detach child st)))))"

definition removeChild :: "ref \<Rightarrow> ref \<Rightarrow> dom \<Rightarrow> error + dom" where
  "removeChild parent child st =
     (if parentNode (heap st child) = Some parent
      then Inr (logOp (RemoveChild parent child) (detach child st))
      else Inl NotFoundError)"

fun substitute :: "ref \<Rightarrow> ref list \<Rightarrow> ref list \<Rightarrow> ref list" where
  "substitute old new [] = []"
| "substitute old new (c # cs) = (if c = old then new @ cs else c # substitute old new cs)"

definition replaceChild :: "ref \<Rightarrow> ref \<Rightarrow> ref \<Rightarrow> dom \<Rightarrow> error + dom" where
  "replaceChild parent new old st =
     (if \<not> canHaveChildren (kind (heap st parent)) \<or> new = parent then Inl HierarchyRequestError
      else if parentNode (heap st old) \<noteq> Some parent then Inl NotFoundError
      else if new = old then Inr (logOp (ReplaceChild parent new old) st)
      else if kind (heap st new) = FragmentKind then
        (let cs = childNodes (heap st new)
         in Inr (logOp (ReplaceChild parent new old)
                  (adopt parent cs
                    (upd old (\<lambda>nd. nd\<lparr>parentNode := None\<rparr>)
                      (upd parent (\<lambda>nd. nd\<lparr>childNodes := substitute old cs (childNodes nd)\<rparr>)
                        (upd new (\<lambda>nd. nd\<lparr>childNodes := []\<rparr>) st))))))
      else
        Inr (logOp (ReplaceChild parent new old)
              (upd new (\<lambda>nd. nd\<lparr>parentNode := Some parent\<rparr>)
                (upd old (\<lambda>nd. nd\<lparr>parentNode := None\<rparr>)
                  (upd parent (\<lambda>nd. nd\<lparr>childNodes := substitute old [new] (childNodes nd)\<rparr>)
                    (detach new st))))))"

definition removeAllChildren :: "ref \<Rightarrow> dom \<Rightarrow> dom" where
  "removeAllChildren r st =
     upd r (\<lambda>nd. nd\<lparr>childNodes := []\<rparr>) (orphan (childNodes (heap st r)) st)"

definition setTextContent :: "ref \<Rightarrow> string option \<Rightarrow> dom \<Rightarrow> error + dom" where
  "setTextContent r v st =
     (let s = (case v of None \<Rightarrow> [] | Some s \<Rightarrow> s)
      in if canHaveChildren (kind (heap st r)) then
           (let st1 = removeAllChildren r st
            in if s = [] then Inr (logOp (SetTextContent r s) st1)
               else (case newNode TextKind s st1 of
                       (t, st2) \<Rightarrow>
                         Inr (logOp (SetTextContent r s)
                               (upd t (\<lambda>nd. nd\<lparr>parentNode := Some r\<rparr>)
                                 (upd r (\<lambda>nd. nd\<lparr>childNodes := [t]\<rparr>) st2)))))
         else Inr (logOp (SetTextContent r s) (upd r (\<lambda>nd. nd\<lparr>data := s\<rparr>) st)))"

definition clearInnerHTML :: "ref \<Rightarrow> dom \<Rightarrow> error + dom" where
  "clearInnerHTML r st =
     (if isElement (kind (heap st r)) then Inr (logOp (ClearInnerHTML r) (removeAllChildren r st))
      else Inr st)"


section \<open>The patch applier\<close>

lemma bindE_cong [fundef_cong]:
  "m = m' \<Longrightarrow> (\<And>x. m' = Inr x \<Longrightarrow> f x = f' x) \<Longrightarrow> bindE m f = bindE m' f'"
  by (auto simp: bindE_def split: sum.splits)

fun forEachE :: "('a \<Rightarrow> dom \<Rightarrow> error + dom) \<Rightarrow> 'a list \<Rightarrow> dom \<Rightarrow> error + dom" where
  "forEachE f [] st = Inr st"
| "forEachE f (x # xs) st = bindE (f x st) (forEachE f xs)"

text \<open>
  \<open>String.prototype.split\<close> and \<open>indexOf\<close> for a separator of one character, and \<open>trim\<close>
  over the ASCII white space.
\<close>


fun js_split :: "char \<Rightarrow> string \<Rightarrow> string list" where
  "js_split sep [] = [[]]"
| "js_split sep (x # xs) =
     (if x = sep then [] # js_split sep xs
      else (case js_split sep xs of [] \<Rightarrow> [[x]] | y # ys \<Rightarrow> (x # y) # ys))"

definition isSpace :: "char \<Rightarrow> bool" where
  "isSpace c = (c \<in> set [CHR '' '', CHR 0x09, CHR 0x0A, CHR 0x0B, CHR 0x0C, CHR 0x0D])"

definition js_trim :: "string \<Rightarrow> string" where
  "js_trim s = rev (dropWhile isSpace (rev (dropWhile isSpace s)))"

fun js_indexOf :: "char \<Rightarrow> string \<Rightarrow> int" where
  "js_indexOf c [] = - 1"
| "js_indexOf c (x # xs) =
     (if x = c then 0 else (if js_indexOf c xs < 0 then - 1 else js_indexOf c xs + 1))"

definition getStyleMap :: "string \<Rightarrow> attribute list" where
  "getStyleMap styles =
     foldl (\<lambda>m style.
        let entry = js_trim style
        in if js_indexOf CHR '':'' entry > 0
           then (case js_split CHR '':'' entry of
                   n # v # rest \<Rightarrow>
                     m @ [Attribute (if n \<noteq> [] then js_trim n else [])
                                    (if v \<noteq> [] then js_trim v else [])]
                 | [n] \<Rightarrow> m @ [Attribute (if n \<noteq> [] then js_trim n else []) []]
                 | [] \<Rightarrow> m @ [Attribute [] []])
           else m)
       [] (js_split CHR '';'' styles)"

text \<open>
  Both callers of \<open>removeStyles\<close> pass an array of property names (strings), and
  \<open>style.name\<close> of a string is \<open>undefined\<close>: the property written is the one named
  "undefined".
\<close>

definition removeStyles :: "ref \<Rightarrow> string list \<Rightarrow> dom \<Rightarrow> error + dom" where
  "removeStyles element styles = forEachE (\<lambda>style. setStyleProperty element ''undefined'' []) styles"

definition changeStyles :: "ref \<Rightarrow> attribute list \<Rightarrow> dom \<Rightarrow> error + dom" where
  "changeStyles element styles =
     forEachE (\<lambda>style. setStyleProperty element (name style) (val style)) styles"

definition diffStyles :: "ref \<Rightarrow> string \<Rightarrow> dom \<Rightarrow> error + dom" where
  "diffStyles element styles st =
     (let styleMap = getStyleMap styles
      in bindE (styleNames element st) (\<lambda>names.
           let remove = filter (\<lambda>style.
                  find (\<lambda>newStyle. name newStyle = style \<and>
                                    val newStyle = styleValue element style st) styleMap = None) names
           in bindE (removeStyles element remove st) (changeStyles element styleMap)))"

definition removeAttributes :: "ref \<Rightarrow> attribute list \<Rightarrow> dom \<Rightarrow> error + dom" where
  "removeAttributes element as =
     forEachE (\<lambda>attribute st.
        if name attribute = ''class'' then setClassName element [] st
        else if name attribute = ''style''
        then bindE (styleNames element st) (\<lambda>names. removeStyles element names st)
        else removeAttribute element (name attribute) st) as"

definition addAttributes :: "ref \<Rightarrow> attribute list \<Rightarrow> dom \<Rightarrow> error + dom" where
  "addAttributes element as =
     forEachE (\<lambda>attribute st.
        if name attribute = ''class'' then setClassName element (val attribute) st
        else if name attribute = ''style'' then diffStyles element (val attribute) st
        else setAttribute element (name attribute)
               (if val attribute = [] then ''true'' else val attribute) st) as"

text \<open>
  \<open>appendNodes\<close> is the \<open>forEach\<close> of \<open>createNode\<close> over \<open>element.children\<close>.
\<close>


fun createNode :: "vnode \<Rightarrow> dom \<Rightarrow> error + (ref \<times> dom)"
  and appendNodes :: "ref \<Rightarrow> vnode list \<Rightarrow> dom \<Rightarrow> error + dom" where
  "createNode (VNode nd c as ty svg cs) st =
     (case (if ty = ''text'' then createTextNode c st
            else if ty = ''comment'' then createComment c st
            else if svg then createElementNS ty st
            else createElement ty st) of
        (n, st1) \<Rightarrow>
          bindE (addAttributes n as st1) (\<lambda>st2.
            if length cs > 0 then bindE (appendNodes n cs st2) (\<lambda>st3. Inr (n, st3))
            else if ty \<noteq> ''text'' then bindE (setTextContent n c st2) (\<lambda>st3. Inr (n, st3))
            else Inr (n, st2)))"
| "appendNodes n [] st = Inr st"
| "appendNodes n (childElement # rest) st =
     bindE (createNode childElement st) (\<lambda>(c, st1).
       bindE (appendChild n c st1) (appendNodes n rest))"

section \<open>The tree differ\<close>

text \<open>
  The first filter of \<open>diffAttributes\<close> calls the method \<open>template.attributes.find\<close>;
  the second one calls a function, \<open>find(existing.attributes, ...)\<close>. The module neither
  declares nor imports a \<open>find\<close>: the identifier is free, and evaluating it raises
  \<open>ReferenceError\<close>. That happens in the callback of the second filter, so as soon as the
  template has an attribute, and before \<open>addAttributes\<close> and \<open>removeAttributes\<close> are
  reached. \<open>filterE\<close> is \<open>filter\<close> with a callback that may raise.
\<close>

definition find_undeclared :: "'a list \<Rightarrow> ('a \<Rightarrow> bool) \<Rightarrow> error + 'a option" where
  "find_undeclared xs p = Inl ReferenceError"

fun filterE :: "('a \<Rightarrow> error + bool) \<Rightarrow> 'a list \<Rightarrow> error + 'a list" where
  "filterE p [] = Inr []"
| "filterE p (x # xs) =
     bindE (p x) (\<lambda>b. bindE (filterE p xs) (\<lambda>ys. Inr (if b then x # ys else ys)))"

definition diffAttributes :: "vnode \<Rightarrow> vnode \<Rightarrow> dom \<Rightarrow> error + dom" where
  "diffAttributes template existing st =
     (let getRemovedAttributes = filter (\<lambda>attribute.
            find (\<lambda>newAttribute. name attribute = name newAttribute) (attributes template) = None)
              (attributes existing)
      in bindE (filterE (\<lambda>attribute.
                  bindE (find_undeclared (attributes existing)
                           (\<lambda>existingAttribute. name attribute = name existingAttribute))
                    (\<lambda>newAttributes.
                       Inr (case newAttributes of
                              None \<Rightarrow> True
                            | Some a \<Rightarrow> val a \<noteq> val attribute)))
                 (attributes template))
           (\<lambda>getChangingAttributes.
              bindE (addAttributes (node existing) getChangingAttributes st)
                (removeAttributes (node existing) getRemovedAttributes)))"

text \<open>
  \<open>removeMissing\<close> is the loop at the head of \<open>diffDOM\<close>, with \<open>count\<close> counting down;
  \<open>diffEach\<close> is its \<open>forEach\<close> over the template, where \<open>domMap[index]\<close> is the head of what
  is left of \<open>domMap\<close> (\<open>None\<close> past its end), and \<open>diffChild\<close> is the callback. In
  \<open>a.parentNode.replaceChild(createNode(t), a)\<close> the parent is read first, so a node without
  a parent raises before anything is created.
\<close>

fun removeMissing :: "vnode list \<Rightarrow> nat \<Rightarrow> dom \<Rightarrow> error + dom" where
  "removeMissing domMap 0 st = Inr st"
| "removeMissing domMap (Suc n) st =
     (let child = domMap ! (length domMap - Suc n)
      in case parentNode (heap st (node child)) of
           None \<Rightarrow> Inl TypeError
         | Some p \<Rightarrow> bindE (removeChild p (node child) st) (removeMissing domMap n))"

fun diffDOM :: "vnode list \<Rightarrow> vnode list \<Rightarrow> ref \<Rightarrow> dom \<Rightarrow> error + dom"
  and diffEach :: "vnode list \<Rightarrow> vnode list \<Rightarrow> ref \<Rightarrow> dom \<Rightarrow> error + dom"
  and diffChild :: "vnode \<Rightarrow> vnode option \<Rightarrow> ref \<Rightarrow> dom \<Rightarrow> error + dom" where
  "diffDOM templateMap domMap element st =
     bindE (if length templateMap < length domMap
            then removeMissing domMap (length domMap - length templateMap) st
            else Inr st)
       (diffEach templateMap domMap element)"
| "diffEach [] domMap element st = Inr st"
| "diffEach (templateChildNode # rest) domMap element st =
     bindE (diffChild templateChildNode (case domMap of [] \<Rightarrow> None | d # ds \<Rightarrow> Some d) element st)
       (diffEach rest (tl domMap) element)"
| "diffChild (VNode nd c as ty svg cs) None element st =
     bindE (createNode (VNode nd c as ty svg cs) st) (\<lambda>(n, st1). appendChild element n st1)"
| "diffChild (VNode nd c as ty svg cs) (Some existingChildNode) element st =
     (if ty \<noteq> type existingChildNode then
        (case parentNode (heap st (node existingChildNode)) of
           None \<Rightarrow> Inl TypeError
         | Some p \<Rightarrow>
             bindE (createNode (VNode nd c as ty svg cs) st) (\<lambda>(n, st1).
               replaceChild p n (node existingChildNode) st1))
      else
        bindE (diffAttributes (VNode nd c as ty svg cs) existingChildNode st) (\<lambda>st1.
          if c \<noteq> content existingChildNode
          then setTextContent (node existingChildNode) c st1
          else if length (children existingChildNode) > 0 \<and> length cs < 1
          then clearInnerHTML (node existingChildNode) st1
          else if length (children existingChildNode) < 1 \<and> length cs > 0
          then (case createDocumentFragment st1 of
                  (fragment, st2) \<Rightarrow>
                    bindE (diffDOM cs (children existingChildNode) fragment st2)
                      (appendChild element fragment))
          else if length cs > 0
          then diffDOM cs (children existingChildNode) (node existingChildNode) st1
          else Inr st1))"

definition renderMapToDOM :: "vnode list \<Rightarrow> ref \<Rightarrow> dom \<Rightarrow> error + dom" where
  "renderMapToDOM templateMap root = forEachE (\<lambda>element. appendChild root (node element)) templateMap"

section \<open>Observations on a trace, and a concrete instance\<close>


definition connectEffects :: "'v effect list \<Rightarrow> 'v effect list" where
  "connectEffects t =
     filter (\<lambda>e. case e of HookCall h \<Rightarrow> h = elementDidConnect
                 | StyleTagAppended s \<Rightarrow> True
                 | RenderScheduled \<Rightarrow> True
                 | _ \<Rightarrow> False) t"



definition accepts :: "'v library \<Rightarrow> 'v element \<Rightarrow> string \<Rightarrow> bool" where
  "accepts lib this s =
     (case create lib s of
        None \<Rightarrow> False
      | Some v \<Rightarrow> if isFirstRender this then render lib v \<noteq> None
                  else update lib v (vDOM this) \<noteq> None)"

text \<open>
  \<open>lib0\<close> is an instance of the library for the scenarios below; its trees are the
  template strings themselves. \<open>create\<close> raises for the empty template, which has no root
  element, and returns for every other string; \<open>render\<close> returns; \<open>update\<close> patches a
  retained tree and raises when what it is handed is not a tree, since there is no
  virtual node to read then. \<open>hooks0\<close> is an extender with four lifecycle methods, \<open>page\<close>
  a render method that returns a template.
\<close>

definition lib0 :: "string library" where
  "lib0 = \<lparr>create = (\<lambda>s. if s = [] then None else Some s), render = (\<lambda>v. Some ()),
           update = (\<lambda>n old. case old of Tree v \<Rightarrow> Some (Tree n) | _ \<Rightarrow> None)\<rparr>"

definition hooks0 :: "hook set" where
  "hooks0 = {elementDidConnect, elementDidMount, elementDidUpdate, elementWillUnmount}"

definition page :: "js_value option" where
  "page = Some (JSString ''<p>hi</p>'')"

section \<open>Notions for the theorems on trees and stores\<close>

text \<open>
  \<open>holdsEverywhere P v\<close>: \<open>P\<close> holds of \<open>v\<close> and of every node below it.
  \<open>contentIffChildless\<close> is the invariant of the data model: the content is set iff there
  are no children.
\<close>

fun holdsEverywhere :: "(vnode \<Rightarrow> bool) \<Rightarrow> vnode \<Rightarrow> bool" where
  "holdsEverywhere P (VNode nd c as ty svg cs) =
     (P (VNode nd c as ty svg cs) \<and> list_all (holdsEverywhere P) cs)"

definition contentIffChildless :: "vnode \<Rightarrow> bool" where
  "contentIffChildless v = ((content v \<noteq> None) = (children v = []))"

text \<open>
  \<open>lookup n as\<close> is the value of the first attribute named \<open>n\<close>. \<open>emptyRoot\<close> is a store
  with an empty root (a shadow root) at reference 0.
\<close>

definition lookup :: "string \<Rightarrow> attribute list \<Rightarrow> string option" where
  "lookup n as = map_option val (find (\<lambda>a. name a = n) as)"

definition blank :: dom_node where
  "blank = \<lparr>kind = FragmentKind, attrs = [], style = [], data = [], childNodes = [],
            parentNode = None\<rparr>"

definition emptyRoot :: dom where
  "emptyRoot = \<lparr>heap = (\<lambda>r. blank), next_ref = 1, ops = []\<rparr>"

text \<open>
  The attribute round trip of the spec: a live div with a="1" b="2" under the root, its
  current node, and the next node with b="3" c="4".
\<close>

definition liveDiv :: dom where
  "liveDiv =
     \<lparr>heap = (\<lambda>r. blank)
        (0 := blank\<lparr>childNodes := [1]\<rparr>,
         1 := \<lparr>kind = ElementKind ''div'' False,
               attrs = [Attribute ''a'' ''1'', Attribute ''b'' ''2''],
               style = [], data = [], childNodes = [], parentNode = Some 0\<rparr>),
      next_ref = 2, ops = []\<rparr>"

definition currentDiv :: vnode where
  "currentDiv = VNode 1 (Some []) [Attribute ''a'' ''1'', Attribute ''b'' ''2''] ''div'' False []"

definition nextDiv :: vnode where
  "nextDiv = VNode 9 (Some []) [Attribute ''b'' ''3'', Attribute ''c'' ''4''] ''div'' False []"

text \<open>
  The body that the parser builds for the template \<open><input disabled>\<close>, and its node.
\<close>

definition inputPage :: parsed where
  "inputPage = PElement 0 ''BODY'' [] [PElement 1 ''INPUT'' [Attribute ''disabled'' []] []]"

definition inputNode :: vnode where
  "inputNode = VNode 1 (Some []) [Attribute ''disabled'' []] ''input'' False []"





definition emptyDiv :: dom where
  "emptyDiv =
     \<lparr>heap = (\<lambda>r. blank)
        (0 := blank\<lparr>childNodes := [1]\<rparr>,
         1 := \<lparr>kind = ElementKind ''div'' False, attrs = [], style = [], data = [],
               childNodes = [], parentNode = Some 0\<rparr>),
      next_ref = 2, ops = []\<rparr>"





text \<open>
  What \<open>createNode\<close> is expected to build for a node \<open>v\<close>. \<open>kindOf v\<close> is the kind of DOM
  node for its type. \<open>appliedAttributes\<close> is the attribute list of a new element after the
  patch applier has applied the node's attributes in order: class through \<open>className\<close>, style
  through the style declaration and not as an attribute, any other attribute with its value,
  or "true" for an empty one. \<open>appliedStyle\<close> is the inline style declaration of the new
  element after that: a style attribute is parsed by \<open>getStyleMap\<close> and its properties are
  set in order, an empty value removing the property (\<open>setProperty\<close>); before that, when the
  declaration has a property that the new string does not repeat with the same value, the
  property named "undefined" is the one that is cleared (\<open>restyled\<close>). \<open>textOf v\<close> is the
  text child that \<open>textContent = content\<close> gives a childless element.
  \<open>materialises lo hi st r v\<close>: in the store \<open>st\<close> the subtree at \<open>r\<close> is that of \<open>v\<close>, node
  by node, and all its nodes have references from \<open>lo\<close> up to \<open>hi\<close> (they were allocated in
  that interval). \<open>created st t n st'\<close>: from \<open>st\<close> to \<open>st'\<close> the node \<open>n\<close> was allocated
  and built for \<open>t\<close>, parentless, and no node that existed before was changed.
\<close>

definition kindOf :: "vnode \<Rightarrow> node_kind" where
  "kindOf v =
     (if type v = ''text'' then TextKind
      else if type v = ''comment'' then CommentKind
      else ElementKind (type v) (isSVG v))"

definition applied :: "attribute \<Rightarrow> attribute list \<Rightarrow> attribute list" where
  "applied a l =
     (if name a = ''class'' then put ''class'' (val a) l
      else if name a = ''style'' then l
      else put (name a) (if val a = [] then ''true'' else val a) l)"

definition appliedAttributes :: "node_kind \<Rightarrow> attribute list \<Rightarrow> attribute list" where
  "appliedAttributes k as = (if isElement k then fold applied as [] else [])"

definition valueIn :: "string \<Rightarrow> attribute list \<Rightarrow> string" where
  "valueIn n l = (case find (\<lambda>a. name a = n) l of None \<Rightarrow> [] | Some a \<Rightarrow> val a)"

definition setProperty :: "attribute \<Rightarrow> attribute list \<Rightarrow> attribute list" where
  "setProperty s l =
     (if val s = [] then filter (\<lambda>a. name a \<noteq> name s) l else put (name s) (val s) l)"

definition restyled :: "string \<Rightarrow> attribute list \<Rightarrow> attribute list" where
  "restyled css l =
     fold setProperty (getStyleMap css)
       (if filter (\<lambda>n. find (\<lambda>s. name s = n \<and> val s = valueIn n l) (getStyleMap css) = None)
             (map name l) = []
        then l
        else filter (\<lambda>a. name a \<noteq> ''undefined'') l)"

definition restyle :: "attribute \<Rightarrow> attribute list \<Rightarrow> attribute list" where
  "restyle a l = (if name a = ''style'' then restyled (val a) l else l)"

definition appliedStyle :: "node_kind \<Rightarrow> attribute list \<Rightarrow> attribute list" where
  "appliedStyle k as = (if isElement k then fold restyle as [] else [])"

definition textOf :: "vnode \<Rightarrow> string list" where
  "textOf v = (case content v of None \<Rightarrow> [] | Some s \<Rightarrow> if s = [] then [] else [s])"

fun materialises :: "ref \<Rightarrow> ref \<Rightarrow> dom \<Rightarrow> ref \<Rightarrow> vnode \<Rightarrow> bool" where
  "materialises lo hi st r (VNode nd c as ty svg cs) =
     (lo \<le> r \<and> r < hi \<and>
      kind (heap st r) = kindOf (VNode nd c as ty svg cs) \<and>
      attrs (heap st r) = appliedAttributes (kindOf (VNode nd c as ty svg cs)) as \<and>
      style (heap st r) = appliedStyle (kindOf (VNode nd c as ty svg cs)) as \<and>
      (if cs \<noteq> [] then list_all2 (materialises lo hi st) (childNodes (heap st r)) cs
       else if ty = ''text'' then data (heap st r) = toDOMString c \<and> childNodes (heap st r) = []
       else if ty = ''comment''
       then data (heap st r) = (case c of None \<Rightarrow> [] | Some s \<Rightarrow> s) \<and> childNodes (heap st r) = []
       else list_all2 (\<lambda>t s. lo \<le> t \<and> t < hi \<and> kind (heap st t) = TextKind \<and> data (heap st t) = s)
              (childNodes (heap st r)) (textOf (VNode nd c as ty svg cs))))"

text \<open>
  \<open>applicable k a\<close>: the patch applier can apply the attribute \<open>a\<close> to a node of kind
  \<open>k\<close>; that is any attribute but a class on an element of the SVG namespace, and a class
  alone on a node that is not an element. \<open>constructible v\<close>: the attributes of every node
  of \<open>v\<close> are applicable to the node built for it, and the nodes for which \<open>createNode\<close>
  builds a text node or a comment have no children.
\<close>

definition applicable :: "node_kind \<Rightarrow> attribute \<Rightarrow> bool" where
  "applicable k a =
     (case k of
        ElementKind t svg \<Rightarrow> \<not> (svg \<and> name a = ''class'')
      | _ \<Rightarrow> name a = ''class'')"

fun constructible :: "vnode \<Rightarrow> bool" where
  "constructible (VNode nd c as ty svg cs) =
     (list_all (applicable (kindOf (VNode nd c as ty svg cs))) as \<and>
      (if ty = ''text'' \<or> ty = ''comment'' then cs = [] else list_all constructible cs))"

text \<open>
  A live span under the root with its current node, and a next node of another type with
  a class, a style, an attribute without value, an element child and a comment child.
\<close>

definition liveSpan :: dom where
  "liveSpan =
     \<lparr>heap = (\<lambda>r. blank)
        (0 := blank\<lparr>childNodes := [1]\<rparr>,
         1 := \<lparr>kind = ElementKind ''span'' False, attrs = [Attribute ''title'' ''old''],
               style = [], data = [], childNodes = [], parentNode = Some 0\<rparr>),
      next_ref = 2, ops = []\<rparr>"

definition currentSpan :: vnode where
  "currentSpan = VNode 1 (Some []) [Attribute ''title'' ''old''] ''span'' False []"

definition nextCard :: vnode where
  "nextCard =
     VNode 12 None
       [Attribute ''class'' ''card'', Attribute ''style'' ''color: red; width: 10px'',
        Attribute ''hidden'' []] ''div'' False
       [VNode 13 None [] ''p'' False [VNode 14 (Some ''hi'') [] ''text'' False []],
        VNode 15 (Some ''note'') [] ''comment'' False []]"

text \<open>
  A live text node under the root with its current node; the body that the parser builds
  for an element named text; and a next node in the SVG namespace with a class.
\<close>

definition liveText :: dom where
  "liveText =
     \<lparr>heap = (\<lambda>r. blank)
        (0 := blank\<lparr>childNodes := [1]\<rparr>,
         1 := \<lparr>kind = TextKind, attrs = [], style = [], data = ''hi'', childNodes = [],
               parentNode = Some 0\<rparr>),
      next_ref = 2, ops = []\<rparr>"

definition currentText :: vnode where
  "currentText = VNode 1 (Some ''hi'') [] ''text'' False []"

definition textElementPage :: parsed where
  "textElementPage = PElement 10 ''BODY'' [] [PElement 11 ''TEXT'' [] []]"

definition nextCircle :: vnode where
  "nextCircle = VNode 12 (Some []) [Attribute ''class'' ''dot''] ''circle'' True []"

text \<open>
  \<open>sameNode a b\<close>: two states of a node that differ at most in the parent.
  \<open>touchesOnly r st st'\<close>: from \<open>st\<close> to \<open>st'\<close> nothing but the attributes and style of
  \<open>r\<close> changed; \<open>styleOnly\<close>: nothing but its style.
\<close>

definition sameNode :: "dom_node \<Rightarrow> dom_node \<Rightarrow> bool" where
  "sameNode a b = (kind a = kind b \<and> attrs a = attrs b \<and> style a = style b \<and>
                   data a = data b \<and> childNodes a = childNodes b)"

definition created :: "dom \<Rightarrow> vnode \<Rightarrow> ref \<Rightarrow> dom \<Rightarrow> bool" where
  "created st t n st' =
     (n = next_ref st \<and> n < next_ref st' \<and>
      (\<forall>x. x < next_ref st \<longrightarrow> heap st' x = heap st x) \<and>
      parentNode (heap st' n) = None \<and>
      materialises (next_ref st) (next_ref st') st' n t)"

definition touchesOnly :: "ref \<Rightarrow> dom \<Rightarrow> dom \<Rightarrow> bool" where
  "touchesOnly r st st' =
     (next_ref st' = next_ref st \<and> (\<forall>x. x \<noteq> r \<longrightarrow> heap st' x = heap st x) \<and>
      kind (heap st' r) = kind (heap st r) \<and> data (heap st' r) = data (heap st r) \<and>
      childNodes (heap st' r) = childNodes (heap st r) \<and>
      parentNode (heap st' r) = parentNode (heap st r))"

definition styleOnly :: "ref \<Rightarrow> dom \<Rightarrow> dom \<Rightarrow> bool" where
  "styleOnly r st st' = (touchesOnly r st st' \<and> attrs (heap st' r) = attrs (heap st r))"




text \<open>
  A live div with a class and an inline style under the root, and its current node.
\<close>

definition styledDiv :: dom where
  "styledDiv =
     \<lparr>heap = (\<lambda>r. blank)
        (0 := blank\<lparr>childNodes := [1]\<rparr>,
         1 := \<lparr>kind = ElementKind ''div'' False, attrs = [Attribute ''class'' ''card''],
               style = [Attribute ''color'' ''red''], data = [], childNodes = [],
               parentNode = Some 0\<rparr>),
      next_ref = 2, ops = []\<rparr>"

definition currentStyled :: vnode where
  "currentStyled =
     VNode 1 (Some []) [Attribute ''class'' ''card'', Attribute ''style'' ''color: red'']
       ''div'' False []"

section \<open>The lifecycle controller: theorems\<close>

lemmas lifecycle_defs =
  connectedCallback_def disconnectedCallback_def adoptedCallback_def
  attributeChangedCallback_def renderDOM_def getInitialRenderState_def
  getNextRenderState_def getVDOM_def getDOMString_def bindE_def runLifecycle_def
  emit_def requestRender_def renderStyles_def Let_def




lemma not_first_renderDOM: "\<not> isFirstRender this \<Longrightarrow> \<not> isFirstRender (snd (renderDOM lib this))"
  by (auto simp: lifecycle_defs split: option.splits js_value.splits sum.splits)

lemma not_first_step: "\<not> isFirstRender this \<Longrightarrow> \<not> isFirstRender (step lib e this)"
  by (cases e) (simp_all add: not_first_renderDOM, simp_all add: lifecycle_defs split: js_value.splits)

lemma not_first_run: "\<not> isFirstRender this \<Longrightarrow> \<not> isFirstRender (run lib es this)"
  by (induction es arbitrary: this) (simp_all add: not_first_step)






lemma connect_ignored: "isDisconnected this \<Longrightarrow> connectedCallback b this = this"
  by (simp add: connectedCallback_def)

lemma detached_renderDOM:
  "isDisconnected (snd (renderDOM lib this)) = isDisconnected this \<and>
   connectEffects (trace (snd (renderDOM lib this))) = connectEffects (trace this)"
  by (auto simp: connectEffects_def lifecycle_defs split: option.splits js_value.splits sum.splits)

lemma detached_step:
  "isDisconnected this \<Longrightarrow> e \<noteq> Adopt \<Longrightarrow>
   isDisconnected (step lib e this) \<and>
   connectEffects (trace (step lib e this)) = connectEffects (trace this)"
  by (cases e)
     (simp_all add: detached_renderDOM, simp_all add: connectEffects_def lifecycle_defs split: js_value.splits)

lemma detached_run:
  "isDisconnected this \<Longrightarrow> Adopt \<notin> set es \<Longrightarrow>
   isDisconnected (run lib es this) \<and>
   connectEffects (trace (run lib es this)) = connectEffects (trace this)"
proof (induction es arbitrary: this)
  case Nil
  then show ?case by simp
next
  case (Cons e es)
  from Cons.prems have s: "isDisconnected (step lib e this)"
    "connectEffects (trace (step lib e this)) = connectEffects (trace this)"
    using detached_step [of this e lib] by auto
  from Cons.prems have "Adopt \<notin> set es" by simp
  from Cons.IH [OF s(1) this] s(2) show ?case by simp
qed

lemma raises_config:
  "(fst (renderDOM lib this) = Some RenderMethodMissing) = (renderMethod this = None)"
  "(fst (renderDOM lib this) = Some NonStringTemplate) =
     (\<exists>v. renderMethod this = Some v \<and> \<not> isString v)"
  by (auto simp: lifecycle_defs split: option.splits js_value.splits sum.splits)

lemma raises_library:
  "(fst (renderDOM lib this) = Some LibraryError) =
     (\<exists>s. renderMethod this = Some (JSString s) \<and> \<not> accepts lib this s)"
  "(fst (renderDOM lib this) = None) =
     (\<exists>s. renderMethod this = Some (JSString s) \<and> accepts lib this s)"
proof -
  show "(fst (renderDOM lib this) = Some LibraryError) =
     (\<exists>s. renderMethod this = Some (JSString s) \<and> \<not> accepts lib this s)"
  proof (cases "renderMethod this")
    case None
    then show ?thesis by (simp add: lifecycle_defs)
  next
    case (Some v)
    then show ?thesis
      by (cases v) (simp_all add: lifecycle_defs accepts_def split: option.splits)
  qed
  show "(fst (renderDOM lib this) = None) =
     (\<exists>s. renderMethod this = Some (JSString s) \<and> accepts lib this s)"
  proof (cases "renderMethod this")
    case None
    then show ?thesis by (simp add: lifecycle_defs)
  next
    case (Some v)
    then show ?thesis
      by (cases v) (simp_all add: lifecycle_defs accepts_def split: option.splits)
  qed
qed

lemma config_error_early:
  "fst (renderDOM lib this) = Some RenderMethodMissing \<or>
   fst (renderDOM lib this) = Some NonStringTemplate \<Longrightarrow> snd (renderDOM lib this) = this"
  by (auto simp: lifecycle_defs split: option.splits js_value.splits sum.splits)

text \<open>
  Claim C7, as amended. A render pass raises its configuration error iff the instance has
  no render method or the method returns a non-string, with one error for each case, and
  it does so before anything else: the instance is as it was, no library function was
  called. A string is never inspected: it goes to the library as it is, and the pass
  raises exactly when one of the library calls it makes raises.
\<close>

theorem render_error_iff:
  "(fst (renderDOM lib this) = Some RenderMethodMissing) = (renderMethod this = None) \<and>
   (fst (renderDOM lib this) = Some NonStringTemplate) =
     (\<exists>v. renderMethod this = Some v \<and> \<not> isString v) \<and>
   (fst (renderDOM lib this) = Some RenderMethodMissing \<or>
    fst (renderDOM lib this) = Some NonStringTemplate \<longrightarrow> snd (renderDOM lib this) = this) \<and>
   (fst (renderDOM lib this) = Some LibraryError) =
     (\<exists>s. renderMethod this = Some (JSString s) \<and> \<not> accepts lib this s) \<and>
   (fst (renderDOM lib this) = None) =
     (\<exists>s. renderMethod this = Some (JSString s) \<and> accepts lib this s)"
  using raises_config [of lib this] raises_library [of lib this] config_error_early [of lib this]
  by blast

theorem render_error_iff_witness:
  "fst (renderDOM lib0 (initialize hooks0 None JSUndefined)) = Some RenderMethodMissing \<and>
   snd (renderDOM lib0 (initialize hooks0 None JSUndefined)) = initialize hooks0 None JSUndefined \<and>
   fst (renderDOM lib0 (initialize hooks0 (Some JSObject) JSUndefined)) = Some NonStringTemplate \<and>
   fst (renderDOM lib0 (initialize hooks0 page JSUndefined)) = None"
proof -
  let ?a = "initialize hooks0 None JSUndefined :: string element"
  let ?b = "initialize hooks0 (Some JSObject) JSUndefined :: string element"
  let ?c = "initialize hooks0 page JSUndefined :: string element"
  have a: "renderMethod ?a = None" by (simp add: initialize_def)
  have b: "renderMethod ?b = Some JSObject" "\<not> isString JSObject" by (simp_all add: initialize_def)
  have c: "renderMethod ?c = Some (JSString ''<p>hi</p>'')" "accepts lib0 ?c ''<p>hi</p>''"
    by (simp_all add: initialize_def page_def accepts_def lib0_def)
  from render_error_iff [of lib0 ?a] a
  have 1: "fst (renderDOM lib0 ?a) = Some RenderMethodMissing" "snd (renderDOM lib0 ?a) = ?a"
    by blast+
  from render_error_iff [of lib0 ?b] b have 2: "fst (renderDOM lib0 ?b) = Some NonStringTemplate"
    by blast
  from render_error_iff [of lib0 ?c] c have 3: "fst (renderDOM lib0 ?c) = None" by blast
  from 1 2 3 show ?thesis by (simp only: simp_thms)
qed

text \<open>
  The claim as the spec has it fails in its "only if". An instance whose render method
  returns a string was rendered, detached (which sets the retained tree to \<open>null\<close>), adopted
  and attached again; its next pass hands \<open>update\<close> the \<open>null\<close> and raises. And the first
  pass of an instance whose render method returns the empty string raises in \<open>create\<close>.
\<close>

theorem string_template_raises_counterexample:
  "renderMethod (run lib0 [Attach True, Tick, Detach, Adopt, Attach True]
                   (initialize hooks0 page JSUndefined)) = Some (JSString ''<p>hi</p>'') \<and>
   vDOM (run lib0 [Attach True, Tick, Detach, Adopt, Attach True]
           (initialize hooks0 page JSUndefined)) = Null \<and>
   fst (renderDOM lib0 (run lib0 [Attach True, Tick, Detach, Adopt, Attach True]
                          (initialize hooks0 page JSUndefined))) = Some LibraryError \<and>
   isString (JSString []) \<and>
   fst (renderDOM lib0 (run lib0 [Attach True] (initialize hooks0 (Some (JSString [])) JSUndefined)))
     = Some LibraryError"
  by (simp add: lifecycle_defs initialize_def lib0_def hooks0_def page_def)




text \<open>
  Claim C3, as amended. Once \<open>isDisconnected\<close> is set, an attach notification changes
  nothing; over any sequence of notifications and ticks without an adoption the flag stays
  set and the connect flow never runs (no connected hook, no style tag, no render request);
  and \<open>isFirstRender\<close>, once false, is never true again, so no later render is a first
  render.
\<close>

theorem detached_ignores_attach:
  "(isDisconnected this \<longrightarrow> connectedCallback b this = this) \<and>
   (isDisconnected this \<and> Adopt \<notin> set es \<longrightarrow>
      isDisconnected (run lib es this) \<and>
      connectEffects (trace (run lib es this)) = connectEffects (trace this)) \<and>
   (\<not> isFirstRender this \<longrightarrow> \<not> isFirstRender (run lib es this))"
  using connect_ignored [of this b] detached_run [of this es lib] not_first_run [of this lib es]
  by blast

theorem detached_ignores_attach_witness:
  "isDisconnected (run lib0 [Attach True, Tick, Detach] (initialize hooks0 page (JSString ''p {}''))) \<and>
   \<not> isFirstRender (run lib0 [Attach True, Tick, Detach] (initialize hooks0 page (JSString ''p {}''))) \<and>
   Adopt \<notin> set [Attach True, Detach, Attach True, Tick] \<and>
   connectedCallback True (run lib0 [Attach True, Tick, Detach] (initialize hooks0 page (JSString ''p {}'')))
     = run lib0 [Attach True, Tick, Detach] (initialize hooks0 page (JSString ''p {}'')) \<and>
   isDisconnected (run lib0 [Attach True, Detach, Attach True, Tick]
     (run lib0 [Attach True, Tick, Detach] (initialize hooks0 page (JSString ''p {}'')))) \<and>
   connectEffects (trace (run lib0 [Attach True, Detach, Attach True, Tick]
     (run lib0 [Attach True, Tick, Detach] (initialize hooks0 page (JSString ''p {}'')))))
     = [HookCall elementDidConnect, StyleTagAppended ''p {}'', RenderScheduled] \<and>
   \<not> isFirstRender (run lib0 [Attach True, Detach, Attach True, Tick]
     (run lib0 [Attach True, Tick, Detach] (initialize hooks0 page (JSString ''p {}''))))"
proof -
  let ?c = "run lib0 [Attach True, Tick, Detach] (initialize hooks0 page (JSString ''p {}'')) :: string element"
  have d: "isDisconnected ?c"
    by (simp add: lifecycle_defs initialize_def lib0_def hooks0_def page_def)
  have f: "\<not> isFirstRender ?c"
    by (simp add: lifecycle_defs initialize_def lib0_def hooks0_def page_def)
  have a: "Adopt \<notin> set [Attach True, Detach, Attach True, Tick]" by simp
  have t: "connectEffects (trace ?c) = [HookCall elementDidConnect, StyleTagAppended ''p {}'', RenderScheduled]"
    by (simp add: lifecycle_defs initialize_def lib0_def hooks0_def page_def connectEffects_def)
  note w = detached_ignores_attach [of ?c True "[Attach True, Detach, Attach True, Tick]" lib0]
  from w d have 1: "connectedCallback True ?c = ?c" by blast
  from w d a have 2: "isDisconnected (run lib0 [Attach True, Detach, Attach True, Tick] ?c)"
    and 3: "connectEffects (trace (run lib0 [Attach True, Detach, Attach True, Tick] ?c))
              = connectEffects (trace ?c)" by blast+
  from w f have 4: "\<not> isFirstRender (run lib0 [Attach True, Detach, Attach True, Tick] ?c)" by blast
  from d f a 1 2 3 4 t show ?thesis by (simp only: simp_thms)
qed

text \<open>
  The claim as the spec has it fails: after attach, render, detach, a real re-attach, a
  second detach and a third attach, the connect flow has run once, the flag is still set
  and \<open>isFirstRender\<close> is still false.
\<close>

theorem reattach_counterexample:
  "trace (run lib0 [Attach True, Tick, Detach, Attach True, Detach, Attach True]
            (initialize hooks0 page JSUndefined))
     = [HookCall elementDidConnect, RenderScheduled, LibRender ''<p>hi</p>'',
        HookCall elementDidMount, HookCall elementWillUnmount, HookCall elementWillUnmount] \<and>
   isDisconnected (run lib0 [Attach True, Tick, Detach, Attach True, Detach, Attach True]
            (initialize hooks0 page JSUndefined)) \<and>
   \<not> isFirstRender (run lib0 [Attach True, Tick, Detach, Attach True, Detach, Attach True]
            (initialize hooks0 page JSUndefined))"
  by (simp add: lifecycle_defs initialize_def lib0_def hooks0_def page_def)

section \<open>The template parser: theorems\<close>

lemma length_createDOMMap: "length (createDOMMap e s) = length (childNodesOf e)"
  by (subst createDOMMap.simps) simp

lemma createDOMMap_empty: "(createDOMMap e s = []) = (childNodesOf e = [])"
  using length_createDOMMap [of e s] by (metis length_0_conv)

lemma holdsEverywhere_node: "list_all (holdsEverywhere contentIffChildless) (createDOMMap n s) \<Longrightarrow> holdsEverywhere contentIffChildless
          (VNode (nodeRef n) (if 0 < length (childNodesOf n) then None else Some (textContent n)) as ty s
             (createDOMMap n s))"
  by (simp add: contentIffChildless_def createDOMMap_empty)

lemma createDOMMap_invariant:
  "list_all (holdsEverywhere contentIffChildless) (createDOMMap element svg)"
proof (induction element svg rule: createDOMMap.induct)
  case (1 element svg)
  show ?case
    apply (subst createDOMMap.simps)
    apply (unfold Let_def list_all_iff set_map)
    apply (rule ballI)
    apply (erule imageE)
    apply (simp only:)
    apply (rule holdsEverywhere_node [unfolded list_all_iff])
    apply (rule 1 [unfolded list_all_iff])
    apply assumption
    apply (rule refl)+
    done
qed

text \<open>
  Claim C9. Every node that \<open>createDOMMap\<close> produces, at any depth, has its content set
  iff it has no children; and a node of the result has as many children as the DOM node has
  child nodes, with the DOM node's text content as content exactly when there are none.
\<close>

theorem parser_content_iff_childless:
  "list_all (holdsEverywhere contentIffChildless) (createDOMMap element svg) \<and>
   list_all2 (\<lambda>n v. node v = nodeRef n \<and>
                     length (children v) = length (childNodesOf n) \<and>
                     content v = (if childNodesOf n = [] then Some (textContent n) else None))
     (childNodesOf element) (createDOMMap element svg)"
proof -
  have "list_all2 (\<lambda>n v. node v = nodeRef n \<and>
                     length (children v) = length (childNodesOf n) \<and>
                     content v = (if childNodesOf n = [] then Some (textContent n) else None))
     (childNodesOf element) (createDOMMap element svg)"
    apply (subst createDOMMap.simps)
    apply (unfold Let_def list_all2_map2)
    apply (rule list_all2_refl)
    apply (simp add: length_createDOMMap)
    done
  with createDOMMap_invariant show ?thesis by blast
qed

section \<open>Attribute reconciliation: theorems\<close>

lemma lookup_Nil [simp]: "lookup n [] = None"
  by (simp add: lookup_def)

lemma lookup_Cons [simp]: "lookup n (a # as) = (if name a = n then Some (val a) else lookup n as)"
  by (simp add: lookup_def)

lemma lookup_put: "lookup n (put m v l) = (if m = n then Some v else lookup n l)"
  by (induction l) auto

lemma diffAttributes_raises:
  "diffAttributes (VNode nd c (a # as) ty svg cs) existing st = Inl ReferenceError"
  by (simp add: diffAttributes_def find_undeclared_def bindE_def)


text \<open>
  Claim C1, on the code. The attribute round trip of the spec is a live div with a="1"
  b="2" and a next node with b="3" c="4". \<open>diffAttributes\<close> raises \<open>ReferenceError\<close> there,
  at the call of \<open>find\<close> and before any attribute is applied or removed, and so does the
  pass; the same holds for every comparison of two nodes of one type whose next node has
  an attribute.
\<close>

theorem attribute_round_trip_raises:
  "attributes currentDiv = [Attribute ''a'' ''1'', Attribute ''b'' ''2''] \<and>
   attributes nextDiv = [Attribute ''b'' ''3'', Attribute ''c'' ''4''] \<and>
   attrs (heap liveDiv (node currentDiv)) = attributes currentDiv \<and>
   diffAttributes nextDiv currentDiv liveDiv = Inl ReferenceError \<and>
   diffDOM [nextDiv] [currentDiv] 0 liveDiv = Inl ReferenceError \<and>
   diffAttributes (VNode nd c (a # as) ty svg cs) existing st = Inl ReferenceError \<and>
   diffChild (VNode nd c (a # as) (type existing) svg cs) (Some existing) element st
     = Inl ReferenceError"
  by (simp add: diffAttributes_raises nextDiv_def currentDiv_def liveDiv_def bindE_def)

text \<open>
  The removals are reached when the next node has no attribute. A class that is removed
  stays as an empty class attribute, and a style that is removed is not cleared:
  \<open>removeStyles\<close> is handed the property names and writes the property "undefined" for
  each of them.
\<close>

lemma removed_class_and_style:
  "\<exists>st'. diffAttributes (VNode 9 (Some []) [] ''div'' False []) currentStyled styledDiv = Inr st' \<and>
     attrs (heap st' 1) = [Attribute ''class'' []] \<and>
     style (heap st' 1) = [Attribute ''color'' ''red''] \<and>
     ops st' = [SetClassName 1 [], SetStyle 1 ''undefined'' []]"
  by (simp add: currentStyled_def styledDiv_def blank_def diffAttributes_def addAttributes_def
        removeAttributes_def removeStyles_def styleNames_def setStyleProperty_def setClassName_def
        bindE_def upd_def logOp_def)

section \<open>The patch applier: empty attribute values\<close>

lemma createDOMMap_leaf:
  "createDOMMap (PText r d) svg = []" "createDOMMap (PComment r d) svg = []"
  "createDOMMap (PElement r t as []) svg = []"
  by (subst createDOMMap.simps, simp)+

lemma createDOMMap_children:
  "createDOMMap (PElement r t as (n # ns)) svg =
     VNode (nodeRef n)
       (if childNodesOf n = [] then Some (textContent n) else None)
       (if nodeType n = 1 then getAttributes (nodeAttributes n) else [])
       (if nodeType n = 3 then ''text'' else if nodeType n = 8 then ''comment''
        else toLowerCase (tagName n))
       (svg \<or> (if nodeType n = 3 then ''text'' else if nodeType n = 8 then ''comment''
        else toLowerCase (tagName n)) = ''svg'')
       (createDOMMap n (svg \<or> (if nodeType n = 3 then ''text'' else if nodeType n = 8 then ''comment''
        else toLowerCase (tagName n)) = ''svg''))
     # createDOMMap (PElement r t as ns) svg"
  by (subst createDOMMap.simps, subst (2) createDOMMap.simps) (simp add: Let_def)

lemma inputPage_map: "createDOMMap inputPage False = [inputNode]"
  by (simp add: inputPage_def inputNode_def toLowerCase_def getAttributes_def
                createDOMMap_leaf createDOMMap_children)

lemmas dom_defs =
  createElement_def createElementNS_def createTextNode_def createComment_def
  createDocumentFragment_def newNode_def toDOMString_def setAttribute_def
  removeAttribute_def setClassName_def setStyleProperty_def styleNames_def styleValue_def
  detach_def adopt_def orphan_def appendChild_def removeChild_def replaceChild_def
  removeAllChildren_def setTextContent_def clearInnerHTML_def upd_def logOp_def bindE_def

lemmas patch_defs =
  removeStyles_def changeStyles_def diffStyles_def removeAttributes_def addAttributes_def
  diffAttributes_def find_undeclared_def renderMapToDOM_def

lemma inputNode_created:
  "\<exists>st'. createNode inputNode emptyRoot = Inr (1, st') \<and>
         attrs (heap st' 1) = [Attribute ''disabled'' ''true'']"
  by (simp add: inputNode_def emptyRoot_def blank_def dom_defs patch_defs)

text \<open>
  Claim C10. Applying an attribute other than class and style whose value is the empty
  string sets it to "true" on the live element; and there is a template with an
  empty-valued attribute whose materialised node has the value "true" for it.
\<close>

theorem empty_attribute_becomes_true:
  "(isElement (kind (heap st r)) \<and> n \<noteq> ''class'' \<and> n \<noteq> ''style'' \<longrightarrow>
      (\<exists>st'. addAttributes r [Attribute n []] st = Inr st' \<and>
             lookup n (attrs (heap st' r)) = Some ''true'' \<and>
             ops st' = ops st @ [SetAttribute r n ''true''])) \<and>
   (\<exists>body v a r st'. createDOMMap body False = [v] \<and> a \<in> set (attributes v) \<and> val a = [] \<and>
        createNode v emptyRoot = Inr (r, st') \<and>
        attrs (heap st' r) = [Attribute (name a) ''true''])"
proof -
  have 1: "\<exists>st'. addAttributes r [Attribute n []] st = Inr st' \<and>
             lookup n (attrs (heap st' r)) = Some ''true'' \<and>
             ops st' = ops st @ [SetAttribute r n ''true'']"
    if "isElement (kind (heap st r))" "n \<noteq> ''class''" "n \<noteq> ''style''"
    using that
    by (simp add: addAttributes_def setAttribute_def bindE_def upd_def logOp_def lookup_put)
  from inputNode_created obtain st' where
    c: "createNode inputNode emptyRoot = Inr (1, st')"
    and a: "attrs (heap st' 1) = [Attribute ''disabled'' ''true'']" by blast
  have "createDOMMap inputPage False = [inputNode] \<and>
        Attribute ''disabled'' [] \<in> set (attributes inputNode) \<and>
        val (Attribute ''disabled'' []) = [] \<and>
        createNode inputNode emptyRoot = Inr (1, st') \<and>
        attrs (heap st' 1) = [Attribute (name (Attribute ''disabled'' [])) ''true'']"
    using inputPage_map c a by (simp add: inputNode_def)
  then have 2: "\<exists>body v a r st'. createDOMMap body False = [v] \<and> a \<in> set (attributes v) \<and>
        val a = [] \<and> createNode v emptyRoot = Inr (r, st') \<and>
        attrs (heap st' r) = [Attribute (name a) ''true'']"
    by blast
  from 1 2 show ?thesis by blast
qed

theorem empty_attribute_becomes_true_witness:
  "isElement (kind (heap (snd (createElement ''input'' emptyRoot)) 1)) \<and>
   (\<exists>st'. addAttributes 1 [Attribute ''disabled'' []] (snd (createElement ''input'' emptyRoot)) = Inr st' \<and>
          lookup ''disabled'' (attrs (heap st' 1)) = Some ''true'' \<and>
          ops st' = [CreateElement 1 ''input'', SetAttribute 1 ''disabled'' ''true''])"
proof -
  let ?st = "snd (createElement ''input'' emptyRoot)"
  have e: "isElement (kind (heap ?st 1))"
    by (simp add: emptyRoot_def blank_def dom_defs)
  have o: "ops ?st = [CreateElement 1 ''input'']"
    by (simp add: emptyRoot_def blank_def dom_defs)
  have n: "''disabled'' \<noteq> ''class''" "''disabled'' \<noteq> ''style''" by simp_all
  from empty_attribute_becomes_true [of ?st 1 "''disabled''"] e n
  have "\<exists>st'. addAttributes 1 [Attribute ''disabled'' []] ?st = Inr st' \<and>
             lookup ''disabled'' (attrs (heap st' 1)) = Some ''true'' \<and>
             ops st' = ops ?st @ [SetAttribute 1 ''disabled'' ''true'']"
    by blast
  with e o show ?thesis by simp
qed

section \<open>The differ: excess removal and new children\<close>





text \<open>
  Claim C2, on the code. A live div (reference 1) under the root (reference 0) has no
  children, the next div has a text child, and types and content agree. \<open>diffDOM\<close> builds
  the text node in a fragment and appends the fragment to \<open>element\<close>, the parent it was
  called with: the new node (reference 3) becomes a child of the root, after the div, and
  the div stays empty.
\<close>

theorem fragment_appended_to_parent:
  "\<exists>st'. diffDOM [VNode 9 None [] ''div'' False [VNode 10 (Some ''x'') [] ''text'' False []]]
                  [VNode 1 None [] ''div'' False []] 0 emptyDiv = Inr st' \<and>
         childNodes (heap st' 1) = [] \<and>
         childNodes (heap st' 0) = [1, 3] \<and>
         parentNode (heap st' 3) = Some 0 \<and>
         kind (heap st' 3) = TextKind \<and> data (heap st' 3) = ''x'' \<and>
         ops st' = [CreateDocumentFragment 2, CreateTextNode 3 ''x'', AppendChild 2 3,
                    AppendChild 0 2]"
  by (simp add: emptyDiv_def blank_def dom_defs patch_defs)

text \<open>
  With nodes as the parser builds them (a childless element has content \<open>""\<close>, an element
  with children has content \<open>null\<close>), the content comparison comes first: the live
  element gets \<open>textContent = null\<close> and its children are never built.
\<close>

lemma childless_element_content_first:
  "\<exists>st'. diffDOM [VNode 9 None [] ''div'' False [VNode 10 (Some ''x'') [] ''text'' False []]]
                  [VNode 1 (Some []) [] ''div'' False []] 0 emptyDiv = Inr st' \<and>
         childNodes (heap st' 1) = [] \<and>
         childNodes (heap st' 0) = [1] \<and>
         ops st' = [SetTextContent 1 []]"
  by (simp add: emptyDiv_def blank_def dom_defs patch_defs)

section \<open>The differ: a pass without changes\<close>






section \<open>The differ: replacement on a type change\<close>

lemma touchesOnly_refl: "touchesOnly r st st"
  by (simp add: touchesOnly_def)

lemma touchesOnly_trans: "touchesOnly r a b \<Longrightarrow> touchesOnly r b c \<Longrightarrow> touchesOnly r a c"
  by (simp add: touchesOnly_def)

lemma styleOnly_refl: "styleOnly r st st"
  by (simp add: styleOnly_def touchesOnly_refl)

lemma styleOnly_trans: "styleOnly r a b \<Longrightarrow> styleOnly r b c \<Longrightarrow> styleOnly r a c"
  by (auto simp: styleOnly_def intro: touchesOnly_trans)

lemma setStyleProperty_effect:
  "setStyleProperty r n v st = Inr st' \<Longrightarrow>
   styleOnly r st st' \<and> isElement (kind (heap st r)) \<and>
   style (heap st' r) = setProperty (Attribute n v) (style (heap st r))"
  by (auto simp: setStyleProperty_def styleOnly_def touchesOnly_def setProperty_def upd_def logOp_def
           split: if_splits)

lemma setStyleProperty_element:
  "isElement (kind (heap st r)) \<Longrightarrow> \<exists>st'. setStyleProperty r n v st = Inr st'"
  by (simp add: setStyleProperty_def)

lemma removeStyles_Cons:
  "removeStyles r (n # ns) st = bindE (setStyleProperty r ''undefined'' [] st) (removeStyles r ns)"
  by (simp add: removeStyles_def)

lemma removeStyles_effect:
  "removeStyles r ns st = Inr st' \<Longrightarrow>
   styleOnly r st st' \<and>
   style (heap st' r) = (if ns = [] then style (heap st r)
                         else filter (\<lambda>a. name a \<noteq> ''undefined'') (style (heap st r)))"
proof (induction ns arbitrary: st)
  case Nil
  then show ?case by (simp add: removeStyles_def styleOnly_refl)
next
  case (Cons n ns)
  from Cons.prems obtain st1 where
    1: "setStyleProperty r ''undefined'' [] st = Inr st1" and 2: "removeStyles r ns st1 = Inr st'"
    by (auto simp: removeStyles_Cons bindE_def split: sum.splits)
  from setStyleProperty_effect [OF 1] have s1: "styleOnly r st st1"
    and y1: "style (heap st1 r) = filter (\<lambda>a. name a \<noteq> ''undefined'') (style (heap st r))"
    by (simp_all add: setProperty_def)
  from Cons.IH [OF 2] have s2: "styleOnly r st1 st'"
    and y2: "style (heap st' r) = (if ns = [] then style (heap st1 r)
                         else filter (\<lambda>a. name a \<noteq> ''undefined'') (style (heap st1 r)))"
    by simp_all
  from s1 s2 have "styleOnly r st st'" by (rule styleOnly_trans)
  with y1 y2 show ?case by simp
qed

lemma changeStyles_Cons:
  "changeStyles r (s # ss) st =
     bindE (setStyleProperty r (name s) (val s) st) (changeStyles r ss)"
  by (simp add: changeStyles_def)

lemma setProperty_Attribute: "setProperty (Attribute (name s) (val s)) l = setProperty s l"
  by (simp add: setProperty_def)

lemma changeStyles_effect:
  "changeStyles r ss st = Inr st' \<Longrightarrow>
   styleOnly r st st' \<and> style (heap st' r) = fold setProperty ss (style (heap st r))"
proof (induction ss arbitrary: st)
  case Nil
  then show ?case by (simp add: changeStyles_def styleOnly_refl)
next
  case (Cons s ss)
  from Cons.prems obtain st1 where
    1: "setStyleProperty r (name s) (val s) st = Inr st1" and 2: "changeStyles r ss st1 = Inr st'"
    by (auto simp: changeStyles_Cons bindE_def split: sum.splits)
  from setStyleProperty_effect [OF 1] have s1: "styleOnly r st st1"
    and y1: "style (heap st1 r) = setProperty s (style (heap st r))"
    by (simp_all add: setProperty_Attribute)
  from Cons.IH [OF 2] have s2: "styleOnly r st1 st'"
    and y2: "style (heap st' r) = fold setProperty ss (style (heap st1 r))"
    by simp_all
  from s1 s2 have "styleOnly r st st'" by (rule styleOnly_trans)
  with y1 y2 show ?case by simp
qed

lemma diffStyles_effect:
  assumes "diffStyles r css st = Inr st'"
  shows "styleOnly r st st' \<and> isElement (kind (heap st r)) \<and>
         style (heap st' r) = restyled css (style (heap st r))"
proof -
  let ?remove = "filter (\<lambda>n. find (\<lambda>s. name s = n \<and> val s = valueIn n (style (heap st r)))
                                 (getStyleMap css) = None) (map name (style (heap st r)))"
  from assms have el: "isElement (kind (heap st r))"
    by (auto simp: diffStyles_def styleNames_def Let_def bindE_def split: if_splits)
  with assms obtain st1 where
    1: "removeStyles r ?remove st = Inr st1" and 2: "changeStyles r (getStyleMap css) st1 = Inr st'"
    by (auto simp: diffStyles_def styleNames_def styleValue_def valueIn_def Let_def bindE_def
             split: sum.splits)
  from removeStyles_effect [OF 1] have s1: "styleOnly r st st1"
    and y1: "style (heap st1 r) =
               (if ?remove = [] then style (heap st r)
                else filter (\<lambda>a. name a \<noteq> ''undefined'') (style (heap st r)))"
    by simp_all
  from changeStyles_effect [OF 2] have s2: "styleOnly r st1 st'"
    and y2: "style (heap st' r) = fold setProperty (getStyleMap css) (style (heap st1 r))"
    by simp_all
  from s1 s2 have "styleOnly r st st'" by (rule styleOnly_trans)
  moreover have "style (heap st' r) = restyled css (style (heap st r))"
    unfolding y2 y1 restyled_def by simp
  ultimately show ?thesis using el by simp
qed

lemma addAttribute_effect:
  assumes "(if name a = ''class'' then setClassName r (val a) st
            else if name a = ''style'' then diffStyles r (val a) st
            else setAttribute r (name a) (if val a = [] then ''true'' else val a) st) = Inr st1"
  shows "touchesOnly r st st1 \<and>
         attrs (heap st1 r) = (if isElement (kind (heap st r)) then applied a (attrs (heap st r))
                               else attrs (heap st r)) \<and>
         style (heap st1 r) = (if isElement (kind (heap st r)) then restyle a (style (heap st r))
                               else style (heap st r))"
proof (cases "name a = ''class''")
  case True
  with assms show ?thesis
    by (auto simp: setClassName_def touchesOnly_def applied_def restyle_def upd_def logOp_def
             split: if_splits node_kind.splits)
next
  case False
  note nc = this
  show ?thesis
  proof (cases "name a = ''style''")
    case True
    with nc assms have d: "diffStyles r (val a) st = Inr st1" by simp
    from diffStyles_effect [OF d] True nc show ?thesis
      by (simp add: styleOnly_def applied_def restyle_def)
  next
    case False
    with nc assms show ?thesis
      by (auto simp: setAttribute_def touchesOnly_def applied_def restyle_def upd_def logOp_def
               split: if_splits)
  qed
qed

lemma addAttributes_Cons:
  "addAttributes r (a # as) st =
     bindE (if name a = ''class'' then setClassName r (val a) st
            else if name a = ''style'' then diffStyles r (val a) st
            else setAttribute r (name a) (if val a = [] then ''true'' else val a) st)
       (addAttributes r as)"
  by (simp add: addAttributes_def)

lemma addAttributes_effect:
  "addAttributes r as st = Inr st' \<Longrightarrow>
   touchesOnly r st st' \<and>
   attrs (heap st' r) = (if isElement (kind (heap st r)) then fold applied as (attrs (heap st r))
                         else attrs (heap st r)) \<and>
   style (heap st' r) = (if isElement (kind (heap st r)) then fold restyle as (style (heap st r))
                         else style (heap st r))"
proof (induction as arbitrary: st)
  case Nil
  then show ?case by (simp add: addAttributes_def touchesOnly_refl)
next
  case (Cons a as)
  from Cons.prems obtain st1 where
    1: "(if name a = ''class'' then setClassName r (val a) st
         else if name a = ''style'' then diffStyles r (val a) st
         else setAttribute r (name a) (if val a = [] then ''true'' else val a) st) = Inr st1"
    and 2: "addAttributes r as st1 = Inr st'"
    by (auto simp: addAttributes_Cons bindE_def split: sum.splits)
  from addAttribute_effect [OF 1] have t1: "touchesOnly r st st1"
    and a1: "attrs (heap st1 r) = (if isElement (kind (heap st r)) then applied a (attrs (heap st r))
                               else attrs (heap st r))"
    and y1: "style (heap st1 r) = (if isElement (kind (heap st r)) then restyle a (style (heap st r))
                               else style (heap st r))" by simp_all
  from Cons.IH [OF 2] have t2: "touchesOnly r st1 st'"
    and a2: "attrs (heap st' r) = (if isElement (kind (heap st1 r)) then fold applied as (attrs (heap st1 r))
                         else attrs (heap st1 r))"
    and y2: "style (heap st' r) = (if isElement (kind (heap st1 r)) then fold restyle as (style (heap st1 r))
                         else style (heap st1 r))" by simp_all
  from t1 have k: "kind (heap st1 r) = kind (heap st r)" by (simp add: touchesOnly_def)
  from t1 t2 have "touchesOnly r st st'" by (rule touchesOnly_trans)
  with a1 a2 y1 y2 k show ?case by simp
qed

lemma setTextContent_container:
  assumes "canHaveChildren (kind (heap st n))" and "childNodes (heap st n) = []"
  shows "\<exists>st'. setTextContent n c st = Inr st' \<and>
     (\<forall>x. x \<noteq> n \<and> x < next_ref st \<longrightarrow> heap st' x = heap st x) \<and>
     (if c = None \<or> c = Some []
      then next_ref st' = next_ref st \<and> heap st' n = heap st n
      else next_ref st' = Suc (next_ref st) \<and>
           (n < next_ref st \<longrightarrow>
              heap st' n = (heap st n)\<lparr>childNodes := [next_ref st]\<rparr> \<and>
              kind (heap st' (next_ref st)) = TextKind \<and>
              data (heap st' (next_ref st)) = the c))"
  using assms
  by (cases c)
     (auto simp: setTextContent_def removeAllChildren_def orphan_def newNode_def upd_def logOp_def
                 Let_def)

lemma setTextContent_leaf:
  assumes "\<not> canHaveChildren (kind (heap st n))"
  shows "\<exists>st'. setTextContent n c st = Inr st' \<and> next_ref st' = next_ref st \<and>
     (\<forall>x. x \<noteq> n \<longrightarrow> heap st' x = heap st x) \<and>
     heap st' n = (heap st n)\<lparr>data := (case c of None \<Rightarrow> [] | Some s \<Rightarrow> s)\<rparr>"
  using assms by (simp add: setTextContent_def upd_def logOp_def Let_def)

lemma appendChild_fresh:
  assumes "appendChild n c st = Inr st'" and "kind (heap st c) \<noteq> FragmentKind"
    and "parentNode (heap st c) = None" 
  shows "next_ref st' = next_ref st \<and> c \<noteq> n \<and>
     (\<forall>x. x \<noteq> n \<and> x \<noteq> c \<longrightarrow> heap st' x = heap st x) \<and>
     heap st' n = (heap st n)\<lparr>childNodes := childNodes (heap st n) @ [c]\<rparr> \<and>
     heap st' c = (heap st c)\<lparr>parentNode := Some n\<rparr>"
  using assms
  by (auto simp: appendChild_def detach_def upd_def logOp_def split: if_splits)

lemma materialises_frame:
  "materialises lo hi st r t \<Longrightarrow>
   (\<forall>x. lo \<le> x \<and> x < hi \<longrightarrow> sameNode (heap st' x) (heap st x)) \<Longrightarrow>
   materialises lo hi st' r t"
proof (induction t arbitrary: r)
  case (VNode nd c as ty svg cs)
  let ?v = "VNode nd c as ty svg cs"
  from VNode.prems(1) have rng: "lo \<le> r" "r < hi" by simp_all
  with VNode.prems(2) have same: "sameNode (heap st' r) (heap st r)" by blast
  from VNode.prems(1) have k: "kind (heap st r) = kindOf ?v"
    and a: "attrs (heap st r) = appliedAttributes (kindOf ?v) as"
    and y: "style (heap st r) = appliedStyle (kindOf ?v) as" by simp_all
  have kids: "list_all2 (materialises lo hi st') (childNodes (heap st' r)) cs"
    if "cs \<noteq> []"
  proof -
    from that VNode.prems(1) have "list_all2 (materialises lo hi st) (childNodes (heap st r)) cs"
      by simp
    then have "list_all2 (materialises lo hi st') (childNodes (heap st r)) cs"
      using VNode.IH VNode.prems(2) by (blast intro: list.rel_mono_strong)
    with same show ?thesis by (simp add: sameNode_def)
  qed
  have tchild: "list_all2 (\<lambda>t s. lo \<le> t \<and> t < hi \<and> kind (heap st' t) = TextKind \<and> data (heap st' t) = s)
              (childNodes (heap st' r)) (textOf ?v)"
    if "cs = []" and "ty \<noteq> ''text''" and "ty \<noteq> ''comment''"
  proof -
    from that VNode.prems(1)
    have "list_all2 (\<lambda>t s. lo \<le> t \<and> t < hi \<and> kind (heap st t) = TextKind \<and> data (heap st t) = s)
              (childNodes (heap st r)) (textOf ?v)" by simp
    then have "list_all2 (\<lambda>t s. lo \<le> t \<and> t < hi \<and> kind (heap st' t) = TextKind \<and> data (heap st' t) = s)
              (childNodes (heap st r)) (textOf ?v)"
      using VNode.prems(2) by (auto simp: sameNode_def elim!: list.rel_mono_strong)
    with same show ?thesis by (simp add: sameNode_def)
  qed
  have leaf: "data (heap st' r) = data (heap st r)" "childNodes (heap st' r) = childNodes (heap st r)"
    using same by (simp_all add: sameNode_def)
  from VNode.prems(1) rng k a y same kids tchild leaf show ?case
    by (simp add: sameNode_def)
qed

lemma materialises_widen:
  "materialises lo hi st r t \<Longrightarrow> lo' \<le> lo \<Longrightarrow> hi \<le> hi' \<Longrightarrow> materialises lo' hi' st r t"
proof (induction t arbitrary: r)
  case (VNode nd c as ty svg cs)
  let ?v = "VNode nd c as ty svg cs"
  have kids: "list_all2 (materialises lo' hi' st) (childNodes (heap st r)) cs" if "cs \<noteq> []"
  proof -
    from that VNode.prems(1) have "list_all2 (materialises lo hi st) (childNodes (heap st r)) cs"
      by simp
    then show ?thesis
      using VNode.IH VNode.prems(2,3) by (blast intro: list.rel_mono_strong)
  qed
  have tchild: "list_all2 (\<lambda>t s. lo' \<le> t \<and> t < hi' \<and> kind (heap st t) = TextKind \<and> data (heap st t) = s)
              (childNodes (heap st r)) (textOf ?v)"
    if "cs = []" and "ty \<noteq> ''text''" and "ty \<noteq> ''comment''"
  proof -
    from that VNode.prems(1)
    have "list_all2 (\<lambda>t s. lo \<le> t \<and> t < hi \<and> kind (heap st t) = TextKind \<and> data (heap st t) = s)
              (childNodes (heap st r)) (textOf ?v)" by simp
    then show ?thesis
      using VNode.prems(2,3) by (auto elim!: list.rel_mono_strong)
  qed
  from VNode.prems kids tchild show ?case by simp
qed

lemma sameNode_refl: "sameNode a a"
  by (simp add: sameNode_def)

lemma sameNode_parent: "sameNode (a\<lparr>parentNode := p\<rparr>) a"
  by (simp add: sameNode_def)

lemma kindOf_not_fragment: "kindOf v \<noteq> FragmentKind"
  by (simp add: kindOf_def)

lemma appendNodes_created:
  assumes each: "\<And>c st m st'. c \<in> set cs \<Longrightarrow> createNode c st = Inr (m, st') \<Longrightarrow> created st c m st'"
  shows "appendNodes n cs st = Inr st' \<Longrightarrow> n < next_ref st \<Longrightarrow>
     next_ref st \<le> next_ref st' \<and>
     (\<forall>x. x < next_ref st \<and> x \<noteq> n \<longrightarrow> heap st' x = heap st x) \<and>
     (\<exists>new. heap st' n = (heap st n)\<lparr>childNodes := childNodes (heap st n) @ new\<rparr> \<and>
            list_all2 (materialises (next_ref st) (next_ref st') st') new cs)"
  using each
proof (induction cs arbitrary: st)
  case Nil
  then show ?case by simp
next
  case (Cons c rest)
  from Cons.prems(1) obtain m st1 st2 where
    cr: "createNode c st = Inr (m, st1)"
    and ap: "appendChild n m st1 = Inr st2"
    and re: "appendNodes n rest st2 = Inr st'"
    by (auto simp: bindE_def split: sum.splits prod.splits)
  from Cons.prems(3) [OF _ cr] have c1: "created st c m st1" by simp
  then have m: "m = next_ref st" and m1: "m < next_ref st1"
    and f1: "\<forall>x. x < next_ref st \<longrightarrow> heap st1 x = heap st x"
    and p1: "parentNode (heap st1 m) = None"
    and mat1: "materialises (next_ref st) (next_ref st1) st1 m c"
    unfolding created_def by blast+
  from mat1 have "kind (heap st1 m) = kindOf c" by (cases c) simp
  then have k1: "kind (heap st1 m) \<noteq> FragmentKind" by (simp add: kindOf_not_fragment)
  from appendChild_fresh [OF ap k1 p1] have n2: "next_ref st2 = next_ref st1"
    and f2: "\<forall>x. x \<noteq> n \<and> x \<noteq> m \<longrightarrow> heap st2 x = heap st1 x"
    and hn2: "heap st2 n = (heap st1 n)\<lparr>childNodes := childNodes (heap st1 n) @ [m]\<rparr>"
    and hm2: "heap st2 m = (heap st1 m)\<lparr>parentNode := Some n\<rparr>"
    by simp_all
  from Cons.prems(2) f1 have hn1: "heap st1 n = heap st n" by simp
  have nm: "n < m" using Cons.prems(2) m by simp
  have "\<forall>x. next_ref st \<le> x \<and> x < next_ref st1 \<longrightarrow> sameNode (heap st2 x) (heap st1 x)"
  proof (intro allI impI)
    fix x assume x: "next_ref st \<le> x \<and> x < next_ref st1"
    with Cons.prems(2) have "x \<noteq> n" by simp
    with f2 hm2 show "sameNode (heap st2 x) (heap st1 x)"
      by (cases "x = m") (simp_all add: sameNode_refl sameNode_parent)
  qed
  with mat1 have mat2: "materialises (next_ref st) (next_ref st1) st2 m c"
    by (rule materialises_frame)
  have n2': "n < next_ref st2" using nm m1 n2 by simp
  have each': "\<And>c st m st'. c \<in> set rest \<Longrightarrow> createNode c st = Inr (m, st') \<Longrightarrow> created st c m st'"
    using Cons.prems(3) by simp
  from Cons.IH [OF re n2' each'] obtain new where
    n3: "next_ref st2 \<le> next_ref st'"
    and f3: "\<forall>x. x < next_ref st2 \<and> x \<noteq> n \<longrightarrow> heap st' x = heap st2 x"
    and hn3: "heap st' n = (heap st2 n)\<lparr>childNodes := childNodes (heap st2 n) @ new\<rparr>"
    and mat3: "list_all2 (materialises (next_ref st2) (next_ref st') st') new rest"
    by blast
  have le: "next_ref st \<le> next_ref st'" using m m1 n2 n3 by simp
  have fr: "\<forall>x. x < next_ref st \<and> x \<noteq> n \<longrightarrow> heap st' x = heap st x"
  proof (intro allI impI)
    fix x assume x: "x < next_ref st \<and> x \<noteq> n"
    with m m1 n2 have "x < next_ref st2" "x \<noteq> m" by simp_all
    with x f3 f2 f1 show "heap st' x = heap st x" by simp
  qed
  have hn: "heap st' n = (heap st n)\<lparr>childNodes := childNodes (heap st n) @ (m # new)\<rparr>"
    using hn3 hn2 hn1 by simp
  have "\<forall>x. next_ref st \<le> x \<and> x < next_ref st1 \<longrightarrow> sameNode (heap st' x) (heap st2 x)"
  proof (intro allI impI)
    fix x assume x: "next_ref st \<le> x \<and> x < next_ref st1"
    with Cons.prems(2) n2 have "x \<noteq> n" "x < next_ref st2" by simp_all
    with f3 show "sameNode (heap st' x) (heap st2 x)" by (simp add: sameNode_refl)
  qed
  with mat2 have "materialises (next_ref st) (next_ref st1) st' m c"
    by (rule materialises_frame)
  then have mc: "materialises (next_ref st) (next_ref st') st' m c"
  proof (rule materialises_widen)
    show "next_ref st \<le> next_ref st" by simp
    show "next_ref st1 \<le> next_ref st'" using n2 n3 by simp
  qed
  have "list_all2 (materialises (next_ref st) (next_ref st') st') new rest"
    using mat3
  proof (rule list.rel_mono_strong)
    fix r t assume "materialises (next_ref st2) (next_ref st') st' r t"
    then show "materialises (next_ref st) (next_ref st') st' r t"
    proof (rule materialises_widen)
      show "next_ref st \<le> next_ref st2" using m m1 n2 by simp
      show "next_ref st' \<le> next_ref st'" by simp
    qed
  qed
  with mc have "list_all2 (materialises (next_ref st) (next_ref st') st') (m # new) (c # rest)"
    by simp
  with le fr hn show ?case by blast
qed

lemma creation_fresh:
  assumes "(if ty = ''text'' then createTextNode c st
            else if ty = ''comment'' then createComment c st
            else if svg then createElementNS ty st
            else createElement ty st) = (n, st1)"
  shows "n = next_ref st \<and> next_ref st1 = Suc n \<and>
         (\<forall>x. x \<noteq> n \<longrightarrow> heap st1 x = heap st x) \<and>
         kind (heap st1 n) = kindOf (VNode nd c as ty svg cs) \<and>
         attrs (heap st1 n) = [] \<and> style (heap st1 n) = [] \<and>
         childNodes (heap st1 n) = [] \<and> parentNode (heap st1 n) = None \<and>
         (ty = ''text'' \<longrightarrow> data (heap st1 n) = toDOMString c)"
  using assms
  by (auto simp: createTextNode_def createComment_def createElementNS_def createElement_def
        newNode_def logOp_def kindOf_def split: if_splits)

lemma createdI:
  "n = next_ref st \<Longrightarrow> n < next_ref st' \<Longrightarrow>
   (\<forall>x. x < next_ref st \<longrightarrow> heap st' x = heap st x) \<Longrightarrow>
   parentNode (heap st' n) = None \<Longrightarrow>
   materialises n (next_ref st') st' n t \<Longrightarrow> created st t n st'"
  by (simp add: created_def)

lemma createNode_created: "createNode t st = Inr (n, st') \<Longrightarrow> created st t n st'"
proof (induction t arbitrary: st n st')
  case (VNode nd c as ty svg cs)
  let ?v = "VNode nd c as ty svg cs"
  obtain n1 st1 where cr: "(if ty = ''text'' then createTextNode c st
            else if ty = ''comment'' then createComment c st
            else if svg then createElementNS ty st
            else createElement ty st) = (n1, st1)" by fastforce
  from VNode.prems cr obtain st2 where
    ad: "addAttributes n1 as st1 = Inr st2"
    and fin: "(if length cs > 0 then bindE (appendNodes n1 cs st2) (\<lambda>st3. Inr (n1, st3))
               else if ty \<noteq> ''text'' then bindE (setTextContent n1 c st2) (\<lambda>st3. Inr (n1, st3))
               else Inr (n1, st2)) = Inr (n, st')"
    by (auto simp: bindE_def split: sum.splits)
  from creation_fresh [OF cr, of nd as cs] have n1: "n1 = next_ref st"
    and nx1: "next_ref st1 = Suc n1"
    and f1: "\<forall>x. x \<noteq> n1 \<longrightarrow> heap st1 x = heap st x"
    and k1: "kind (heap st1 n1) = kindOf ?v"
    and a1: "attrs (heap st1 n1) = []" and y1: "style (heap st1 n1) = []"
    and c1: "childNodes (heap st1 n1) = []"
    and p1: "parentNode (heap st1 n1) = None"
    and d1: "ty = ''text'' \<longrightarrow> data (heap st1 n1) = toDOMString c"
    by blast+
  from addAttributes_effect [OF ad] have t2: "touchesOnly n1 st1 st2"
    and a2: "attrs (heap st2 n1) = appliedAttributes (kindOf ?v) as"
    and y2: "style (heap st2 n1) = appliedStyle (kindOf ?v) as"
    by (simp_all add: k1 a1 y1 appliedAttributes_def appliedStyle_def)
  from t2 have nx2: "next_ref st2 = Suc n1"
    and f2: "\<forall>x. x \<noteq> n1 \<longrightarrow> heap st2 x = heap st x"
    and k2: "kind (heap st2 n1) = kindOf ?v"
    and c2: "childNodes (heap st2 n1) = []"
    and p2: "parentNode (heap st2 n1) = None"
    and d2: "ty = ''text'' \<longrightarrow> data (heap st2 n1) = toDOMString c"
    using nx1 f1 k1 c1 p1 d1 by (simp_all add: touchesOnly_def)
  have nn: "n = n1" using fin by (auto simp: bindE_def split: sum.splits if_splits)
  show ?case
  proof (cases "cs = []")
    case False
    with fin have ap: "appendNodes n1 cs st2 = Inr st'"
      by (auto simp: bindE_def split: sum.splits)
    have lt: "n1 < next_ref st2" using nx2 by simp
    from appendNodes_created [OF VNode.IH ap lt] obtain new where
      n3: "next_ref st2 \<le> next_ref st'"
      and f3: "\<forall>x. x < next_ref st2 \<and> x \<noteq> n1 \<longrightarrow> heap st' x = heap st2 x"
      and hn3: "heap st' n1 = (heap st2 n1)\<lparr>childNodes := childNodes (heap st2 n1) @ new\<rparr>"
      and mat3: "list_all2 (materialises (next_ref st2) (next_ref st') st') new cs"
      by blast
    have kids: "list_all2 (materialises n1 (next_ref st') st') new cs"
      using mat3
    proof (rule list.rel_mono_strong)
      fix r t assume "materialises (next_ref st2) (next_ref st') st' r t"
      then show "materialises n1 (next_ref st') st' r t"
      proof (rule materialises_widen)
        show "n1 \<le> next_ref st2" using nx2 by simp
        show "next_ref st' \<le> next_ref st'" by simp
      qed
    qed
    have fr: "\<forall>x. x < next_ref st \<longrightarrow> heap st' x = heap st x"
      using f3 f2 n1 nx2 by simp
    have mat: "materialises n1 (next_ref st') st' n1 ?v"
      using False kids hn3 k2 a2 y2 c2 nx2 n3 by simp
    have lt': "n1 < next_ref st'" using nx2 n3 by simp
    have par: "parentNode (heap st' n1) = None" using hn3 p2 by simp
    from n1 lt' fr par mat show ?thesis unfolding nn by (rule createdI)
  next
    case True
    note empty = this
    show ?thesis
    proof (cases "ty = ''text''")
      case True
      with empty fin have e: "st' = st2" by simp
      have mat: "materialises n1 (next_ref st2) st2 n1 ?v"
        using empty True k2 a2 y2 c2 d2 nx2 by simp
      have lt': "n1 < next_ref st2" using nx2 by simp
      have fr: "\<forall>x. x < next_ref st \<longrightarrow> heap st2 x = heap st x" using f2 n1 by simp
      from n1 lt' fr p2 mat show ?thesis unfolding nn e by (rule createdI)
    next
      case False
      note nt = this
      with empty fin have se: "setTextContent n1 c st2 = Inr st'"
        by (auto simp: bindE_def split: sum.splits)
      show ?thesis
      proof (cases "ty = ''comment''")
        case True
        then have "\<not> canHaveChildren (kind (heap st2 n1))" by (simp add: k2 kindOf_def)
        from setTextContent_leaf [OF this, of c] se have nx3: "next_ref st' = next_ref st2"
          and f3: "\<forall>x. x \<noteq> n1 \<longrightarrow> heap st' x = heap st2 x"
          and h3: "heap st' n1 = (heap st2 n1)\<lparr>data := (case c of None \<Rightarrow> [] | Some s \<Rightarrow> s)\<rparr>"
          by simp_all
        have mat: "materialises n1 (next_ref st') st' n1 ?v"
          using empty True k2 a2 y2 c2 nx2 nx3 h3 by simp
        have lt': "n1 < next_ref st'" using nx2 nx3 by simp
        have fr: "\<forall>x. x < next_ref st \<longrightarrow> heap st' x = heap st x" using f2 f3 n1 by simp
        have par: "parentNode (heap st' n1) = None" using h3 p2 by simp
        from n1 lt' fr par mat show ?thesis unfolding nn by (rule createdI)
      next
        case False
        note nc = this
        with nt have can: "canHaveChildren (kind (heap st2 n1))" by (simp add: k2 kindOf_def)
        from setTextContent_container [OF can c2, of c] se have
          f3: "\<forall>x. x \<noteq> n1 \<and> x < next_ref st2 \<longrightarrow> heap st' x = heap st2 x"
          and r3: "if c = None \<or> c = Some []
             then next_ref st' = next_ref st2 \<and> heap st' n1 = heap st2 n1
             else next_ref st' = Suc (next_ref st2) \<and>
                  (n1 < next_ref st2 \<longrightarrow>
                     heap st' n1 = (heap st2 n1)\<lparr>childNodes := [next_ref st2]\<rparr> \<and>
                     kind (heap st' (next_ref st2)) = TextKind \<and>
                     data (heap st' (next_ref st2)) = the c)"
          by simp_all
        have fr: "\<forall>x. x < next_ref st \<longrightarrow> heap st' x = heap st x"
          using f3 f2 n1 nx2 by simp
        show ?thesis
        proof (cases "c = None \<or> c = Some []")
          case True
          with r3 have nx3: "next_ref st' = next_ref st2" and h3: "heap st' n1 = heap st2 n1"
            by simp_all
          have "textOf ?v = []" using True by (auto simp: textOf_def)
          then have mat: "materialises n1 (next_ref st') st' n1 ?v"
            using empty nt nc k2 a2 y2 c2 nx2 nx3 h3 by simp
          have lt': "n1 < next_ref st'" using nx2 nx3 by simp
          have par: "parentNode (heap st' n1) = None" using h3 p2 by simp
          from n1 lt' fr par mat show ?thesis unfolding nn by (rule createdI)
        next
          case False
          with r3 nx2 have nx3: "next_ref st' = Suc (Suc n1)"
            and h3: "heap st' n1 = (heap st2 n1)\<lparr>childNodes := [Suc n1]\<rparr>"
            and kt: "kind (heap st' (Suc n1)) = TextKind"
            and dt: "data (heap st' (Suc n1)) = the c"
            by simp_all
          from False have "textOf ?v = [the c]" by (cases c) (simp_all add: textOf_def)
          then have mat: "materialises n1 (next_ref st') st' n1 ?v"
            using empty nt nc k2 a2 y2 nx3 h3 kt dt by simp
          have lt': "n1 < next_ref st'" using nx3 by simp
          have par: "parentNode (heap st' n1) = None" using h3 p2 by simp
          from n1 lt' fr par mat show ?thesis unfolding nn by (rule createdI)
        qed
      qed
    qed
  qed
qed


lemma touchesOnly_kind: "touchesOnly r st st' \<Longrightarrow> kind (heap st' x) = kind (heap st x)"
  by (cases "x = r") (simp_all add: touchesOnly_def)

lemma removeStyles_element:
  "isElement (kind (heap st r)) \<Longrightarrow> \<exists>st'. removeStyles r ns st = Inr st'"
proof (induction ns arbitrary: st)
  case Nil
  then show ?case by (simp add: removeStyles_def)
next
  case (Cons n ns)
  from setStyleProperty_element [OF Cons.prems] obtain st1 where
    1: "setStyleProperty r ''undefined'' [] st = Inr st1" by blast
  from setStyleProperty_effect [OF 1] have "touchesOnly r st st1" by (simp add: styleOnly_def)
  then have "kind (heap st1 r) = kind (heap st r)" by (rule touchesOnly_kind)
  with Cons.prems have "isElement (kind (heap st1 r))" by simp
  from Cons.IH [OF this] 1 show ?case by (simp add: removeStyles_Cons bindE_def)
qed

lemma changeStyles_element:
  "isElement (kind (heap st r)) \<Longrightarrow> \<exists>st'. changeStyles r ss st = Inr st'"
proof (induction ss arbitrary: st)
  case Nil
  then show ?case by (simp add: changeStyles_def)
next
  case (Cons s ss)
  from setStyleProperty_element [OF Cons.prems] obtain st1 where
    1: "setStyleProperty r (name s) (val s) st = Inr st1" by blast
  from setStyleProperty_effect [OF 1] have "touchesOnly r st st1" by (simp add: styleOnly_def)
  then have "kind (heap st1 r) = kind (heap st r)" by (rule touchesOnly_kind)
  with Cons.prems have "isElement (kind (heap st1 r))" by simp
  from Cons.IH [OF this] 1 show ?case by (simp add: changeStyles_Cons bindE_def)
qed

lemma diffStyles_element:
  assumes "isElement (kind (heap st r))"
  shows "\<exists>st'. diffStyles r css st = Inr st'"
proof -
  let ?remove = "filter (\<lambda>n. find (\<lambda>s. name s = n \<and> val s = styleValue r n st)
                                 (getStyleMap css) = None) (map name (style (heap st r)))"
  from removeStyles_element [OF assms] obtain st1 where
    1: "removeStyles r ?remove st = Inr st1" by blast
  from removeStyles_effect [OF 1] have "touchesOnly r st st1" by (simp add: styleOnly_def)
  then have "kind (heap st1 r) = kind (heap st r)" by (rule touchesOnly_kind)
  with assms have "isElement (kind (heap st1 r))" by simp
  from changeStyles_element [OF this] obtain st' where
    2: "changeStyles r (getStyleMap css) st1 = Inr st'" by blast
  from assms 1 2 show ?thesis
    by (simp add: diffStyles_def styleNames_def Let_def bindE_def)
qed

lemma addAttribute_applicable:
  "(\<exists>st1. (if name a = ''class'' then setClassName r (val a) st
            else if name a = ''style'' then diffStyles r (val a) st
            else setAttribute r (name a) (if val a = [] then ''true'' else val a) st) = Inr st1)
     = applicable (kind (heap st r)) a"
proof (cases "name a = ''class''")
  case True
  then show ?thesis
    by (auto simp: setClassName_def applicable_def split: node_kind.splits)
next
  case False
  note nc = this
  show ?thesis
  proof (cases "name a = ''style''")
    case True
    show ?thesis
    proof (cases "isElement (kind (heap st r))")
      case True
      from diffStyles_element [OF this] \<open>name a = ''style''\<close> nc True show ?thesis
        by (auto simp: applicable_def split: node_kind.splits)
    next
      case False
      then have "diffStyles r (val a) st = Inl TypeError"
        by (simp add: diffStyles_def styleNames_def Let_def bindE_def)
      with \<open>name a = ''style''\<close> nc False show ?thesis
        by (auto simp: applicable_def split: node_kind.splits)
    qed
  next
    case False
    with nc show ?thesis
      by (auto simp: setAttribute_def applicable_def split: node_kind.splits)
  qed
qed

lemma addAttributes_applicable:
  "(\<exists>st'. addAttributes r as st = Inr st') = list_all (applicable (kind (heap st r))) as"
proof (induction as arbitrary: st)
  case Nil
  then show ?case by (simp add: addAttributes_def)
next
  case (Cons a as)
  let ?step = "if name a = ''class'' then setClassName r (val a) st
            else if name a = ''style'' then diffStyles r (val a) st
            else setAttribute r (name a) (if val a = [] then ''true'' else val a) st"
  show ?case
  proof (cases ?step)
    case (Inl e)
    then have "\<not> (\<exists>st1. ?step = Inr st1)" by simp
    then have "\<not> applicable (kind (heap st r)) a"
      using addAttribute_applicable [of a r st] by simp
    with Inl show ?thesis by (simp add: addAttributes_Cons bindE_def)
  next
    case (Inr st1)
    then have "\<exists>st1. ?step = Inr st1" by blast
    then have ap: "applicable (kind (heap st r)) a"
      using addAttribute_applicable [of a r st] by simp
    from addAttribute_effect [OF Inr] have "touchesOnly r st st1" by simp
    then have k: "kind (heap st1 r) = kind (heap st r)" by (rule touchesOnly_kind)
    from Cons.IH [of st1] k ap Inr show ?thesis
      by (simp add: addAttributes_Cons bindE_def)
  qed
qed

lemma setTextContent_returns: "\<exists>st'. setTextContent n c st = Inr st'"
  by (simp add: setTextContent_def Let_def split: prod.splits)

lemma appendChild_container:
  "canHaveChildren (kind (heap st n)) \<Longrightarrow> c \<noteq> n \<Longrightarrow> \<exists>st'. appendChild n c st = Inr st'"
  by (simp add: appendChild_def Let_def)

lemma appendChild_leaf:
  "\<not> canHaveChildren (kind (heap st n)) \<Longrightarrow> appendChild n c st = Inl HierarchyRequestError"
  by (simp add: appendChild_def)

lemma created_kind:
  assumes "created st c m st1" and "n < next_ref st"
  shows "kind (heap st1 n) = kind (heap st n) \<and> m \<noteq> n \<and> n < next_ref st1 \<and>
         kind (heap st1 m) \<noteq> FragmentKind \<and> parentNode (heap st1 m) = None"
proof -
  from assms(1) have m: "m = next_ref st" and m1: "m < next_ref st1"
    and f1: "\<forall>x. x < next_ref st \<longrightarrow> heap st1 x = heap st x"
    and p1: "parentNode (heap st1 m) = None"
    and mat1: "materialises (next_ref st) (next_ref st1) st1 m c"
    unfolding created_def by blast+
  from mat1 have "kind (heap st1 m) = kindOf c" by (cases c) simp
  then have "kind (heap st1 m) \<noteq> FragmentKind" by (simp add: kindOf_not_fragment)
  with m m1 f1 p1 assms(2) show ?thesis by simp
qed

lemma appendNodes_leaf:
  assumes "\<not> canHaveChildren (kind (heap st n))" and "n < next_ref st" and "cs \<noteq> []"
  shows "\<not> (\<exists>st'. appendNodes n cs st = Inr st')"
proof (cases cs)
  case Nil
  with assms(3) show ?thesis by simp
next
  case (Cons c rest)
  show ?thesis
  proof (cases "createNode c st")
    case (Inl e)
    with Cons show ?thesis by (simp add: bindE_def del: createNode.simps)
  next
    case (Inr x)
    obtain m st1 where x: "x = (m, st1)" by (cases x)
    with Inr have cr: "createNode c st = Inr (m, st1)" by simp
    from created_kind [OF createNode_created [OF cr] assms(2)] assms(1)
    have "\<not> canHaveChildren (kind (heap st1 n))" by simp
    then have "appendChild n m st1 = Inl HierarchyRequestError" by (rule appendChild_leaf)
    with cr Cons show ?thesis by (simp add: bindE_def del: createNode.simps)
  qed
qed

lemma appendNodes_constructible:
  assumes each: "\<And>c st. c \<in> set cs \<Longrightarrow> (\<exists>m st'. createNode c st = Inr (m, st')) = constructible c"
  shows "canHaveChildren (kind (heap st n)) \<Longrightarrow> n < next_ref st \<Longrightarrow>
         (\<exists>st'. appendNodes n cs st = Inr st') = list_all constructible cs"
  using each
proof (induction cs arbitrary: st)
  case Nil
  then show ?case by simp
next
  case (Cons c rest)
  show ?case
  proof (cases "createNode c st")
    case (Inl e)
    then have "\<not> (\<exists>m st'. createNode c st = Inr (m, st'))" by simp
    then have "\<not> constructible c" using Cons.prems(3) [of c st] by simp
    with Inl show ?thesis by (simp add: bindE_def del: createNode.simps)
  next
    case (Inr x)
    obtain m st1 where x: "x = (m, st1)" by (cases x)
    with Inr have cr: "createNode c st = Inr (m, st1)" by simp
    then have "\<exists>m st'. createNode c st = Inr (m, st')" by blast
    then have cc: "constructible c" using Cons.prems(3) [of c st] by simp
    from created_kind [OF createNode_created [OF cr] Cons.prems(2)] Cons.prems(1)
    have can1: "canHaveChildren (kind (heap st1 n))" and ne: "m \<noteq> n" and lt1: "n < next_ref st1"
      and k1: "kind (heap st1 m) \<noteq> FragmentKind" and p1: "parentNode (heap st1 m) = None"
      by simp_all
    from appendChild_container [OF can1 ne] obtain st2 where
      ap: "appendChild n m st1 = Inr st2" by blast
    from appendChild_fresh [OF ap k1 p1] have n2: "next_ref st2 = next_ref st1"
      and hn2: "heap st2 n = (heap st1 n)\<lparr>childNodes := childNodes (heap st1 n) @ [m]\<rparr>"
      by simp_all
    have can2: "canHaveChildren (kind (heap st2 n))" using can1 hn2 by simp
    have lt2: "n < next_ref st2" using lt1 n2 by simp
    have each': "\<And>c st. c \<in> set rest \<Longrightarrow>
        (\<exists>m st'. createNode c st = Inr (m, st')) = constructible c"
      using Cons.prems(3) by simp
    from Cons.IH [OF can2 lt2 each'] cr ap cc show ?thesis
      by (simp add: bindE_def del: createNode.simps)
  qed
qed

lemma createNode_constructible:
  "(\<exists>n st'. createNode t st = Inr (n, st')) = constructible t"
proof (induction t arbitrary: st)
  case (VNode nd c as ty svg cs)
  let ?v = "VNode nd c as ty svg cs"
  obtain n1 st1 where cr: "(if ty = ''text'' then createTextNode c st
            else if ty = ''comment'' then createComment c st
            else if svg then createElementNS ty st
            else createElement ty st) = (n1, st1)" by fastforce
  from creation_fresh [OF cr, of nd as cs] have n1: "n1 = next_ref st"
    and nx1: "next_ref st1 = Suc n1"
    and k1: "kind (heap st1 n1) = kindOf ?v"
    by blast+
  have unfold: "createNode ?v st =
      bindE (addAttributes n1 as st1) (\<lambda>st2.
        if length cs > 0 then bindE (appendNodes n1 cs st2) (\<lambda>st3. Inr (n1, st3))
        else if ty \<noteq> ''text'' then bindE (setTextContent n1 c st2) (\<lambda>st3. Inr (n1, st3))
        else Inr (n1, st2))"
    using cr by simp
  show ?case
  proof (cases "addAttributes n1 as st1")
    case (Inl e)
    then have "\<not> (\<exists>st'. addAttributes n1 as st1 = Inr st')" by simp
    then have "\<not> list_all (applicable (kindOf ?v)) as"
      using addAttributes_applicable [of n1 as st1] by (simp add: k1)
    with Inl unfold show ?thesis by (simp add: bindE_def del: createNode.simps)
  next
    case (Inr st2)
    then have "\<exists>st'. addAttributes n1 as st1 = Inr st'" by blast
    then have ap: "list_all (applicable (kindOf ?v)) as"
      using addAttributes_applicable [of n1 as st1] by (simp add: k1)
    from addAttributes_effect [OF Inr] have t2: "touchesOnly n1 st1 st2" by simp
    then have k2: "kind (heap st2 n1) = kindOf ?v" and nx2: "next_ref st2 = Suc n1"
      using k1 nx1 by (simp_all add: touchesOnly_def)
    have lt: "n1 < next_ref st2" using nx2 by simp
    show ?thesis
    proof (cases "cs = []")
      case True
      from setTextContent_returns [of n1 c st2] obtain st3 where
        "setTextContent n1 c st2 = Inr st3" by blast
      with True Inr unfold ap show ?thesis by (simp add: bindE_def del: createNode.simps)
    next
      case False
      note ne = this
      show ?thesis
      proof (cases "ty = ''text'' \<or> ty = ''comment''")
        case True
        then have "\<not> canHaveChildren (kind (heap st2 n1))" by (auto simp: k2 kindOf_def)
        from appendNodes_leaf [OF this lt ne] have "\<not> (\<exists>st'. appendNodes n1 cs st2 = Inr st')" .
        then obtain e where "appendNodes n1 cs st2 = Inl e"
          by (cases "appendNodes n1 cs st2") auto
        with True ne Inr unfold show ?thesis by (simp add: bindE_def del: createNode.simps)
      next
        case False
        then have can: "canHaveChildren (kind (heap st2 n1))" by (simp add: k2 kindOf_def)
        have "(\<exists>st'. appendNodes n1 cs st2 = Inr st') = list_all constructible cs"
        proof (rule appendNodes_constructible [OF _ can lt])
          fix x st assume "x \<in> set cs"
          then show "(\<exists>m st'. createNode x st = Inr (m, st')) = constructible x"
            by (rule VNode.IH)
        qed
        with False ne Inr unfold ap show ?thesis
          by (cases "appendNodes n1 cs st2") (auto simp: bindE_def simp del: createNode.simps)
      qed
    qed
  qed
qed


text \<open>
  Claim C5, as amended. When the type strings differ, \<open>diffChild\<close> is \<open>createNode\<close>
  followed by \<open>replaceChild\<close> and nothing else. \<open>createNode\<close> raises exactly when the
  next node is not constructible, and then the pass raises the same error. Otherwise the
  new node is allocated by this pass, it takes the place of the live node in the parent's
  child list, the old node is detached and otherwise exactly as it was (nothing of it was
  diffed), no other node that existed is changed, and the new subtree is the one that
  \<open>createNode\<close> materialises from the next node alone: kinds, children and text as in the
  next node, attributes and inline style as the patch applier applies them.
\<close>

theorem type_change_replaces:
  assumes differ: "type t \<noteq> type d"
    and parent: "parentNode (heap st (node d)) = Some p"
    and container: "canHaveChildren (kind (heap st p))"
    and old: "node d < next_ref st" "p < next_ref st" "p \<noteq> node d"
  shows "diffChild t (Some d) element st =
           bindE (createNode t st) (\<lambda>(n, st1). replaceChild p n (node d) st1) \<and>
      (\<not> constructible t \<longrightarrow>
         (\<exists>e. createNode t st = Inl e \<and> diffChild t (Some d) element st = Inl e)) \<and>
      (constructible t \<longrightarrow>
         (\<exists>n st1 st'. createNode t st = Inr (n, st1) \<and> n = next_ref st \<and>
            diffChild t (Some d) element st = Inr st' \<and>
            ops st' = ops st1 @ [ReplaceChild p n (node d)] \<and>
            childNodes (heap st' p) = substitute (node d) [n] (childNodes (heap st p)) \<and>
            parentNode (heap st' n) = Some p \<and>
            heap st' (node d) = (heap st (node d))\<lparr>parentNode := None\<rparr> \<and>
            (\<forall>x. x < next_ref st \<and> x \<noteq> p \<and> x \<noteq> node d \<longrightarrow> heap st' x = heap st x) \<and>
            materialises (next_ref st) (next_ref st') st' n t))"
proof -
  have eq: "diffChild t (Some d) element st =
              bindE (createNode t st) (\<lambda>(n, st1). replaceChild p n (node d) st1)"
    using differ parent by (cases t) (simp del: createNode.simps)
  have raises: "\<exists>e. createNode t st = Inl e \<and> diffChild t (Some d) element st = Inl e"
    if "\<not> constructible t"
  proof -
    from that have "\<not> (\<exists>n st'. createNode t st = Inr (n, st'))"
      using createNode_constructible [of t st] by simp
    then obtain e where "createNode t st = Inl e" by (cases "createNode t st") auto
    with eq show ?thesis by (simp add: bindE_def)
  qed
  have replaces: "\<exists>n st1 st'. createNode t st = Inr (n, st1) \<and> n = next_ref st \<and>
            diffChild t (Some d) element st = Inr st' \<and>
            ops st' = ops st1 @ [ReplaceChild p n (node d)] \<and>
            childNodes (heap st' p) = substitute (node d) [n] (childNodes (heap st p)) \<and>
            parentNode (heap st' n) = Some p \<and>
            heap st' (node d) = (heap st (node d))\<lparr>parentNode := None\<rparr> \<and>
            (\<forall>x. x < next_ref st \<and> x \<noteq> p \<and> x \<noteq> node d \<longrightarrow> heap st' x = heap st x) \<and>
            materialises (next_ref st) (next_ref st') st' n t"
    if "constructible t"
  proof -
    from that obtain n st1 where cr: "createNode t st = Inr (n, st1)"
      using createNode_constructible [of t st] by auto
    from createNode_created [OF cr] have n: "n = next_ref st" and n1: "n < next_ref st1"
      and f1: "\<forall>x. x < next_ref st \<longrightarrow> heap st1 x = heap st x"
      and p1: "parentNode (heap st1 n) = None"
      and mat1: "materialises (next_ref st) (next_ref st1) st1 n t"
      unfolding created_def by blast+
    from mat1 have "kind (heap st1 n) = kindOf t" by (cases t) simp
    then have k1: "kind (heap st1 n) \<noteq> FragmentKind" by (simp add: kindOf_not_fragment)
    from f1 old parent have hd1: "heap st1 (node d) = heap st (node d)"
      and hp1: "heap st1 p = heap st p" by simp_all
    have ne: "n \<noteq> p" "n \<noteq> node d" using n old by simp_all
    let ?st' = "logOp (ReplaceChild p n (node d))
                (upd n (\<lambda>nd. nd\<lparr>parentNode := Some p\<rparr>)
                  (upd (node d) (\<lambda>nd. nd\<lparr>parentNode := None\<rparr>)
                    (upd p (\<lambda>nd. nd\<lparr>childNodes := substitute (node d) [n] (childNodes nd)\<rparr>)
                      st1)))"
    have rp: "replaceChild p n (node d) st1 = Inr ?st'"
      using ne k1 p1 hd1 hp1 parent container by (simp add: replaceChild_def detach_def)
    have dc: "diffChild t (Some d) element st = Inr ?st'"
      using eq cr rp by (simp add: bindE_def)
    have o: "ops ?st' = ops st1 @ [ReplaceChild p n (node d)]"
      by (simp add: logOp_def upd_def)
    have c: "childNodes (heap ?st' p) = substitute (node d) [n] (childNodes (heap st p))"
      using ne old hp1 by (simp add: logOp_def upd_def)
    have pn: "parentNode (heap ?st' n) = Some p"
      by (simp add: logOp_def upd_def)
    have od: "heap ?st' (node d) = (heap st (node d))\<lparr>parentNode := None\<rparr>"
      using ne old hd1 by (simp add: logOp_def upd_def)
    have fr: "\<forall>x. x < next_ref st \<and> x \<noteq> p \<and> x \<noteq> node d \<longrightarrow> heap ?st' x = heap st x"
      using n f1 by (simp add: logOp_def upd_def)
    have nx: "next_ref ?st' = next_ref st1" by (simp add: logOp_def upd_def)
    have "\<forall>x. next_ref st \<le> x \<and> x < next_ref st1 \<longrightarrow> sameNode (heap ?st' x) (heap st1 x)"
    proof (intro allI impI)
      fix x assume x: "next_ref st \<le> x \<and> x < next_ref st1"
      with old have "x \<noteq> p" "x \<noteq> node d" by simp_all
      then show "sameNode (heap ?st' x) (heap st1 x)"
        by (cases "x = n") (simp_all add: logOp_def upd_def sameNode_def)
    qed
    with mat1 have "materialises (next_ref st) (next_ref st1) ?st' n t"
      by (rule materialises_frame)
    then have mat: "materialises (next_ref st) (next_ref ?st') ?st' n t" by (simp only: nx)
    from cr n dc o c pn od fr mat show ?thesis by blast
  qed
  from eq raises replaces show ?thesis by blast
qed

lemma nextCard_replaces_span:
  "\<exists>st'. diffChild nextCard (Some currentSpan) 0 liveSpan = Inr st' \<and>
     childNodes (heap st' 0) = [2] \<and> next_ref st' = 6 \<and>
     attrs (heap st' 2) = [Attribute ''class'' ''card'', Attribute ''hidden'' ''true''] \<and>
     style (heap st' 2) = [Attribute ''color'' ''red'', Attribute ''width'' ''10px''] \<and>
     childNodes (heap st' 2) = [3, 5]"
  by (simp add: nextCard_def currentSpan_def liveSpan_def blank_def dom_defs patch_defs Let_def
        getStyleMap_def js_trim_def isSpace_def)

theorem type_change_replaces_witness:
  "constructible nextCard \<and>
   (\<exists>st'. diffChild nextCard (Some currentSpan) 0 liveSpan = Inr st' \<and>
     childNodes (heap st' 0) = [2] \<and>
     parentNode (heap st' 2) = Some 0 \<and>
     heap st' 1 = \<lparr>kind = ElementKind ''span'' False, attrs = [Attribute ''title'' ''old''],
                    style = [], data = [], childNodes = [], parentNode = None\<rparr> \<and>
     attrs (heap st' 2) = [Attribute ''class'' ''card'', Attribute ''hidden'' ''true''] \<and>
     style (heap st' 2) = [Attribute ''color'' ''red'', Attribute ''width'' ''10px''] \<and>
     materialises 2 6 st' 2 nextCard) \<and>
   \<not> constructible nextCircle \<and>
   diffChild nextCircle (Some currentSpan) 0 liveSpan = Inl TypeError"
proof -
  from nextCard_replaces_span obtain st' where
    ok: "diffChild nextCard (Some currentSpan) 0 liveSpan = Inr st'"
    and k: "childNodes (heap st' 0) = [2]" and nx: "next_ref st' = 6"
    and a: "attrs (heap st' 2) = [Attribute ''class'' ''card'', Attribute ''hidden'' ''true'']"
    and y: "style (heap st' 2) = [Attribute ''color'' ''red'', Attribute ''width'' ''10px'']"
    by blast
  have con: "constructible nextCard" by (simp add: nextCard_def applicable_def kindOf_def)
  have differ: "type nextCard \<noteq> type currentSpan" by (simp add: nextCard_def currentSpan_def)
  have parent: "parentNode (heap liveSpan (node currentSpan)) = Some 0"
    by (simp add: currentSpan_def liveSpan_def)
  have container: "canHaveChildren (kind (heap liveSpan 0))" by (simp add: liveSpan_def blank_def)
  have old: "node currentSpan < next_ref liveSpan" "0 < next_ref liveSpan" "0 \<noteq> node currentSpan"
    by (simp_all add: currentSpan_def liveSpan_def)
  from type_change_replaces [OF differ parent container old, of 0] con ok obtain n where
    n: "n = next_ref liveSpan"
    and pn: "parentNode (heap st' n) = Some 0"
    and od: "heap st' (node currentSpan) = (heap liveSpan (node currentSpan))\<lparr>parentNode := None\<rparr>"
    and mat: "materialises (next_ref liveSpan) (next_ref st') st' n nextCard"
    by auto
  from n have n2: "n = 2" by (simp add: liveSpan_def)
  from od have od': "heap st' 1 = \<lparr>kind = ElementKind ''span'' False,
       attrs = [Attribute ''title'' ''old''], style = [], data = [], childNodes = [],
       parentNode = None\<rparr>"
    by (simp add: currentSpan_def liveSpan_def)
  from mat n2 nx have mat': "materialises 2 6 st' 2 nextCard" by (simp add: liveSpan_def)
  have ncon: "\<not> constructible nextCircle" by (simp add: nextCircle_def applicable_def kindOf_def)
  have differ': "type nextCircle \<noteq> type currentSpan" by (simp add: nextCircle_def currentSpan_def)
  have cn: "createNode nextCircle liveSpan = Inl TypeError"
    by (simp add: nextCircle_def liveSpan_def blank_def dom_defs patch_defs)
  from type_change_replaces [OF differ' parent container old, of 0] ncon cn
  have r: "diffChild nextCircle (Some currentSpan) 0 liveSpan = Inl TypeError" by auto
  from ok k pn n2 od' a y mat' have
    "\<exists>st'. diffChild nextCard (Some currentSpan) 0 liveSpan = Inr st' \<and>
     childNodes (heap st' 0) = [2] \<and>
     parentNode (heap st' 2) = Some 0 \<and>
     heap st' 1 = \<lparr>kind = ElementKind ''span'' False, attrs = [Attribute ''title'' ''old''],
                    style = [], data = [], childNodes = [], parentNode = None\<rparr> \<and>
     attrs (heap st' 2) = [Attribute ''class'' ''card'', Attribute ''hidden'' ''true''] \<and>
     style (heap st' 2) = [Attribute ''color'' ''red'', Attribute ''width'' ''10px''] \<and>
     materialises 2 6 st' 2 nextCard" by blast
  with con ncon r show ?thesis by (simp only: simp_thms)
qed

lemma textElementPage_map:
  "createDOMMap textElementPage False = [VNode 11 (Some []) [] ''text'' False []]"
  by (simp add: textElementPage_def toLowerCase_def getAttributes_def
                createDOMMap_leaf createDOMMap_children)

text \<open>
  The claim as the spec has it fails in three ways. The new subtree does not match the
  next node exactly: replacing a span by \<open><input disabled>\<close>, whose attribute value is
  empty, gives a live input whose attribute value is "true". A pair whose kinds differ
  need not be replaced: the node that the parser builds for an element named text has the
  type of a text node, so a live text node is kept and only its text is written. And the
  construction can raise: for a next node in the SVG namespace with a class the pass
  raises \<open>TypeError\<close>.
\<close>

theorem replacement_not_exact_counterexample:
  "type inputNode \<noteq> type currentSpan \<and>
   attributes inputNode = [Attribute ''disabled'' []] \<and>
   (\<exists>st'. diffDOM [inputNode] [currentSpan] 0 liveSpan = Inr st' \<and>
      childNodes (heap st' 0) = [2] \<and>
      kind (heap st' 2) = ElementKind ''input'' False \<and>
      attrs (heap st' 2) = [Attribute ''disabled'' ''true'']) \<and>
   map nodeType (childNodesOf textElementPage) = [1] \<and>
   kind (heap liveText (node currentText)) = TextKind \<and>
   (\<exists>st'. diffDOM (createDOMMap textElementPage False) [currentText] 0 liveText = Inr st' \<and>
      childNodes (heap st' 0) = [1] \<and>
      kind (heap st' 1) = TextKind \<and>
      ops st' = [SetTextContent 1 []]) \<and>
   type nextCircle \<noteq> type currentSpan \<and>
   diffDOM [nextCircle] [currentSpan] 0 liveSpan = Inl TypeError"
proof -
  have 1: "\<exists>st'. diffDOM [inputNode] [currentSpan] 0 liveSpan = Inr st' \<and>
      childNodes (heap st' 0) = [2] \<and>
      kind (heap st' 2) = ElementKind ''input'' False \<and>
      attrs (heap st' 2) = [Attribute ''disabled'' ''true'']"
    by (simp add: inputNode_def currentSpan_def liveSpan_def blank_def dom_defs patch_defs)
  have 2: "\<exists>st'. diffDOM (createDOMMap textElementPage False) [currentText] 0 liveText = Inr st' \<and>
      childNodes (heap st' 0) = [1] \<and>
      kind (heap st' 1) = TextKind \<and>
      ops st' = [SetTextContent 1 []]"
    by (simp add: textElementPage_map currentText_def liveText_def blank_def dom_defs patch_defs
          Let_def)
  have 3: "diffDOM [nextCircle] [currentSpan] 0 liveSpan = Inl TypeError"
    by (simp add: nextCircle_def currentSpan_def liveSpan_def blank_def dom_defs patch_defs)
  have 4: "type inputNode \<noteq> type currentSpan" "attributes inputNode = [Attribute ''disabled'' []]"
    "map nodeType (childNodesOf textElementPage) = [1]"
    "kind (heap liveText (node currentText)) = TextKind"
    "type nextCircle \<noteq> type currentSpan"
    by (simp_all add: inputNode_def currentSpan_def textElementPage_def liveText_def
          currentText_def nextCircle_def)
  from 1 2 3 4 show ?thesis by (simp only: simp_thms)
qed

section \<open>The differ: a pass after a pass\<close>












end
